theory Spec2Isabelle
  imports Main
begin

section \<open>turbo-stream: the streaming orchestration of \<open>src/turbo-stream.ts\<close>\<close>

text \<open>
  The development embeds the two orchestrators of \<open>turbo-stream.ts\<close>: \<open>decode\<close> with
  \<open>decodeInitial\<close> and \<open>decodeDeferred\<close>, and \<open>encode\<close> with \<open>raceSignal\<close>.
  The collaborators that live in other files of the repository (\<open>flatten\<close>,
  \<open>unflatten\<close>, the marker constants of \<open>utils.js\<close>) and the JavaScript built-ins
  \<open>JSON.parse\<close> and \<open>Number\<close> are parameters of the model: every theorem holds for
  whatever they compute.
\<close>

subsection \<open>Promises and the \<open>Deferred\<close> class\<close>

text \<open>
  A promise is pending, fulfilled with a value or rejected with a reason. A \<open>Deferred\<close>
  (class of \<open>utils.js\<close>) is a promise with its two settle functions exposed.
  Modelled from the spec: \<open>Deferred.resolve\<close> and \<open>Deferred.reject\<close>, which are the
  resolving functions of a JavaScript promise; they settle a pending promise and have
  no effect on a settled one.
\<close>

datatype ('a, 'e) promise = Pending | Fulfilled 'a | Rejected 'e

definition resolve :: "('a, 'e) promise \<Rightarrow> 'a \<Rightarrow> ('a, 'e) promise" where
  "resolve p v = (case p of Pending \<Rightarrow> Fulfilled v | Fulfilled w \<Rightarrow> Fulfilled w | Rejected e \<Rightarrow> Rejected e)"

definition reject :: "('a, 'e) promise \<Rightarrow> 'e \<Rightarrow> ('a, 'e) promise" where
  "reject p r = (case p of Pending \<Rightarrow> Rejected r | Fulfilled w \<Rightarrow> Fulfilled w | Rejected e \<Rightarrow> Rejected e)"

subsection \<open>JavaScript values\<close>

text \<open>
  The values that promises settle with and that \<open>encode\<close> is given: the primitives
  (numbers restricted to the integers), objects and promises by their identity, and
  \<open>Error\<close> objects by their message. What is inside an object is the business of
  \<open>flatten\<close> only.
\<close>

datatype val =
  VUndefined | VNull | VBool bool | VNumber int | VString string
  | VObject nat | VError string | VPromise nat

text \<open>\<open>!!v\<close>, \<open>typeof v === "object"\<close> and \<open>v instanceof Error\<close>.\<close>

fun truthy :: "val \<Rightarrow> bool" where
  "truthy VUndefined = False"
| "truthy VNull = False"
| "truthy (VBool b) = b"
| "truthy (VNumber n) = (n \<noteq> 0)"
| "truthy (VString s) = (s \<noteq> [])"
| "truthy (VObject a) = True"
| "truthy (VError m) = True"
| "truthy (VPromise a) = True"

fun typeof_object :: "val \<Rightarrow> bool" where
  "typeof_object VNull = True"
| "typeof_object (VObject a) = True"
| "typeof_object (VError m) = True"
| "typeof_object (VPromise a) = True"
| "typeof_object v = False"

fun instanceof_Error :: "val \<Rightarrow> bool" where
  "instanceof_Error (VError m) = True"
| "instanceof_Error v = False"

subsection \<open>Strings: \<open>indexOf\<close> and \<open>slice\<close>\<close>

text \<open>\<open>String.prototype.indexOf\<close> for a one-character needle: the first position, or \<open>-1\<close>.\<close>

definition indexOf :: "string \<Rightarrow> char \<Rightarrow> int" where
  "indexOf s c = (if c \<in> set s then int (length (takeWhile (\<lambda>x. x \<noteq> c) s)) else - 1)"

text \<open>
  \<open>String.prototype.slice(start, end)\<close>: a negative bound counts from the end of the
  string, both bounds are clamped to the string, and an empty range gives the empty
  string. \<open>slice_from\<close> is the one-argument form, whose end is the length.
\<close>

definition slice :: "string \<Rightarrow> int \<Rightarrow> int \<Rightarrow> string" where
  "slice s start fin =
     (let len = int (length s);
          from = (if start < 0 then max (len + start) 0 else min start len);
          to = (if fin < 0 then max (len + fin) 0 else min fin len)
      in take (nat (to - from)) (drop (nat from) s))"

definition slice_from :: "string \<Rightarrow> int \<Rightarrow> string" where
  "slice_from s start = slice s start (int (length s))"

subsection \<open>The decoder state\<close>

text \<open>
  \<open>Number(text)\<close> is a number or \<open>NaN\<close>; the numbers themselves are a type parameter.
\<close>

datatype 'n number = NaN | Num 'n

text \<open>
  What decoding throws: \<open>new SyntaxError()\<close>, the lookup error
  \<open>new Error(`Deferred ID ${deferredId} not found in stream`)\<close>, which carries the id,
  and any other value (what \<open>unflatten\<close> throws, and the hydrated payload of a rejection
  frame, with which a placeholder is rejected).
\<close>

datatype ('n, 'v) reason = SyntaxError | NotFound "'n number" | Thrown 'v

type_synonym addr = nat

text \<open>
  \<open>ThisDecode\<close>. The fields \<open>values\<close>, \<open>hydrated\<close> and \<open>plugins\<close> are read and
  written by \<open>unflatten\<close> only and are kept together as \<open>store\<close>. The registry
  \<open>deferred\<close> maps an id to a \<open>Deferred\<close> object; the objects live in \<open>heap\<close>, by
  address, since \<open>decodeDeferred\<close> keeps a reference to the object it looked up while
  \<open>unflatten\<close> runs. An id is looked up with \<open>map_of\<close>, so the first entry of a key is
  the property and later entries of the same key are not part of the object.
\<close>

record ('n, 'u, 'v) decoder =
  store :: 'u
  deferred :: "('n number \<times> addr) list"
  heap :: "addr \<Rightarrow> ('v, ('n, 'v) reason) promise"

text \<open>\<open>Object.values(decoder.deferred)\<close>: the objects of the registry's properties.\<close>

definition Object_values :: "('k \<times> 'a) list \<Rightarrow> 'a list" where
  "Object_values reg = map snd (filter (\<lambda>(k, a). map_of reg k = Some a) reg)"

definition deferred_resolve :: "addr \<Rightarrow> 'v \<Rightarrow> ('n, 'u, 'v) decoder \<Rightarrow> ('n, 'u, 'v) decoder" where
  "deferred_resolve a v dec = dec\<lparr>heap := (heap dec)(a := resolve (heap dec a) v)\<rparr>"

definition deferred_reject :: "addr \<Rightarrow> ('n, 'v) reason \<Rightarrow> ('n, 'u, 'v) decoder \<Rightarrow> ('n, 'u, 'v) decoder" where
  "deferred_reject a r dec = dec\<lparr>heap := (heap dec)(a := reject (heap dec a) r)\<rparr>"

text \<open>
  The marker constants of \<open>utils.js\<close>, and the collaborators of the decoder.
  \<open>unflatten\<close> returns the hydrated value or what it throws, together with the decoder
  state it leaves behind.
\<close>

record markers =
  TYPE_PROMISE :: string
  TYPE_ERROR :: string
  TYPE_PREVIOUS_RESOLVED :: string

record ('j, 'n, 'u, 'v) env = markers +
  JSON_parse :: "string \<Rightarrow> 'j option"
  Number :: "string \<Rightarrow> 'n number"
  unflatten :: "'j \<Rightarrow> ('n, 'u, 'v) decoder \<Rightarrow> (('n, 'v) reason + 'v) \<times> ('n, 'u, 'v) decoder"

subsection \<open>The reader\<close>

text \<open>
  The reader of the line-split stream is the list of the chunks still to come;
  \<open>reader.read()\<close> gives the next chunk, or \<open>{done: true, value: undefined}\<close> once the
  stream has closed. A transport error is not modelled: the stream ends by closing.
\<close>

record read_result =
  rdone :: bool
  rvalue :: "string option"

definition reader_read :: "string list \<Rightarrow> read_result \<times> string list" where
  "reader_read reader =
     (case reader of
        [] \<Rightarrow> (\<lparr>rdone = True, rvalue = None\<rparr>, [])
      | c # cs \<Rightarrow> (\<lparr>rdone = False, rvalue = Some c\<rparr>, cs))"

subsection \<open>\<open>decodeInitial\<close>\<close>

definition decodeInitial ::
  "('j, 'n, 'u, 'v) env \<Rightarrow> ('n, 'u, 'v) decoder \<Rightarrow> string list \<Rightarrow>
     ('n, 'v) reason + (bool \<times> 'v \<times> ('n, 'u, 'v) decoder \<times> string list)" where
  "decodeInitial env dec reader =
     (case reader_read reader of (read, reader') \<Rightarrow>
        (case rvalue read of
           None \<Rightarrow> Inl SyntaxError
         | Some text \<Rightarrow>
             if text = [] then Inl SyntaxError
             else (case JSON_parse env text of
                     None \<Rightarrow> Inl SyntaxError
                   | Some line \<Rightarrow>
                       (case unflatten env line dec of
                          (Inl e, dec') \<Rightarrow> Inl e
                        | (Inr v, dec') \<Rightarrow> Inr (rdone read, v, dec', reader')))))"

subsection \<open>\<open>decodeDeferred\<close>\<close>

text \<open>
  The body of the \<open>switch\<close> for one non-empty line: the outcome is what the body
  throws (if it throws) and the decoder state at that moment.
\<close>

definition decodeDeferred_line ::
  "('j, 'n, 'u, 'v) env \<Rightarrow> string \<Rightarrow> ('n, 'u, 'v) decoder \<Rightarrow>
     ('n, 'v) reason option \<times> ('n, 'u, 'v) decoder" where
  "decodeDeferred_line env line dec =
     (if take 1 line = TYPE_PROMISE env then
        (let colonIndex = indexOf line CHR '':'';
             deferredId = Number env (slice line 1 colonIndex)
         in case map_of (deferred dec) deferredId of
              None \<Rightarrow> (Some (NotFound deferredId), dec)
            | Some d \<Rightarrow>
                (case JSON_parse env (slice_from line (colonIndex + 1)) of
                   None \<Rightarrow> (Some SyntaxError, dec)
                 | Some jsonLine \<Rightarrow>
                     (case unflatten env jsonLine dec of
                        (Inl e, dec') \<Rightarrow> (Some e, dec')
                      | (Inr v, dec') \<Rightarrow> (None, deferred_resolve d v dec'))))
      else if take 1 line = TYPE_ERROR env then
        (let colonIndex = indexOf line CHR '':'';
             deferredId = Number env (slice line 1 colonIndex)
         in case map_of (deferred dec) deferredId of
              None \<Rightarrow> (Some (NotFound deferredId), dec)
            | Some d \<Rightarrow>
                (case JSON_parse env (slice_from line (colonIndex + 1)) of
                   None \<Rightarrow> (Some SyntaxError, dec)
                 | Some jsonLine \<Rightarrow>
                     (case unflatten env jsonLine dec of
                        (Inl e, dec') \<Rightarrow> (Some e, dec')
                      | (Inr v, dec') \<Rightarrow> (None, deferred_reject d (Thrown v) dec'))))
      else (Some SyntaxError, dec))"

text \<open>
  The \<open>while\<close> loop, with the current \<open>read\<close> as its loop variable. \<open>continue\<close>
  goes back to the loop test with the same \<open>read\<close>; only the end of the body reads the
  next chunk. The loop may run forever, so it is a partial function: \<open>None\<close> is a
  loop that never returns.
\<close>

partial_function (option) decodeDeferred_loop ::
  "('j, 'n, 'u, 'v) env \<Rightarrow> read_result \<Rightarrow> string list \<Rightarrow> ('n, 'u, 'v) decoder \<Rightarrow>
     (('n, 'v) reason option \<times> ('n, 'u, 'v) decoder) option" where
  "decodeDeferred_loop env read reader dec =
     (if rdone read then Some (None, dec)
      else (case rvalue read of
              None \<Rightarrow> decodeDeferred_loop env read reader dec
            | Some line \<Rightarrow>
                if line = [] then decodeDeferred_loop env read reader dec
                else (case decodeDeferred_line env line dec of
                        (Some e, dec') \<Rightarrow> Some (Some e, dec')
                      | (None, dec') \<Rightarrow>
                          (case reader_read reader of (read', reader') \<Rightarrow>
                             decodeDeferred_loop env read' reader' dec'))))"

declare decodeDeferred_loop.simps [code]

definition decodeDeferred ::
  "('j, 'n, 'u, 'v) env \<Rightarrow> ('n, 'u, 'v) decoder \<Rightarrow> string list \<Rightarrow>
     (('n, 'v) reason option \<times> ('n, 'u, 'v) decoder) option" where
  "decodeDeferred env dec reader =
     (case reader_read reader of (read, reader') \<Rightarrow> decodeDeferred_loop env read reader' dec)"

subsection \<open>\<open>decode\<close>\<close>

text \<open>
  What \<open>decode\<close> leaves behind once \<open>decodeDeferred\<close> has returned or thrown: the
  decoder, the \<open>Deferred\<close> named \<open>done\<close>, and the promise \<open>donePromise\<close>.
\<close>

record ('n, 'u, 'v) drained =
  final :: "('n, 'u, 'v) decoder"
  done_deferred :: "(unit, ('n, 'v) reason) promise"
  donePromise :: "(unit, ('n, 'v) reason) promise"

text \<open>
  The handler of \<open>.catch\<close>: every \<open>Deferred\<close> of the registry is rejected with the
  reason.
\<close>

definition reject_all :: "('n, 'v) reason \<Rightarrow> ('n, 'u, 'v) decoder \<Rightarrow> ('n, 'u, 'v) decoder" where
  "reject_all r dec = fold (\<lambda>a d. deferred_reject a r d) (Object_values (deferred dec)) dec"

text \<open>
  \<open>decodeDeferred.call(decoder, reader).then(done.resolve).catch(handler)\<close>: when
  \<open>decodeDeferred\<close> returns, \<open>done\<close> is resolved and the chain is fulfilled; when it
  throws, the handler rejects the placeholders and \<open>done\<close>, returns nothing, and so
  the promise that \<open>.catch\<close> gives is fulfilled too.
\<close>

definition settle_done ::
  "('n, 'v) reason option \<times> ('n, 'u, 'v) decoder \<Rightarrow> ('n, 'u, 'v) drained" where
  "settle_done out =
     (case out of
        (None, dec) \<Rightarrow>
          \<lparr>final = dec, done_deferred = resolve Pending (), donePromise = Fulfilled ()\<rparr>
      | (Some r, dec) \<Rightarrow>
          \<lparr>final = reject_all r dec, done_deferred = reject Pending r, donePromise = Fulfilled ()\<rparr>)"

text \<open>
  The \<open>done\<close> of the returned object is \<open>donePromise.then(() => reader.closed)\<close>: it
  adopts \<open>reader.closed\<close> once \<open>donePromise\<close> is fulfilled, is rejected with the
  reason of \<open>donePromise\<close> when that is rejected, and never settles while it is pending.
\<close>

datatype 'e done_signal = Never_settles | Adopts_reader_closed | Rejects_with 'e

definition then_reader_closed :: "(unit, 'e) promise \<Rightarrow> 'e done_signal" where
  "then_reader_closed p =
     (case p of Pending \<Rightarrow> Never_settles
      | Fulfilled u \<Rightarrow> Adopts_reader_closed
      | Rejected r \<Rightarrow> Rejects_with r)"

text \<open>
  The result of \<open>decode\<close>: the initial value, and what draining leaves (\<open>None\<close> when
  \<open>decodeDeferred\<close> never returns).
\<close>

record ('n, 'u, 'v) decoded =
  dvalue :: 'v
  drain :: "('n, 'u, 'v) drained option"

definition returned_done :: "('n, 'u, 'v) decoded \<Rightarrow> ('n, 'v) reason done_signal" where
  "returned_done r =
     (case drain r of None \<Rightarrow> Never_settles | Some d \<Rightarrow> then_reader_closed (donePromise d))"

text \<open>
  The decoder that \<open>decode\<close> starts from: no values, an empty registry, the plugins
  of the options (inside \<open>store\<close>), and no \<open>Deferred\<close> settled.
\<close>

definition new_decoder :: "'u \<Rightarrow> ('n, 'u, 'v) decoder" where
  "new_decoder plugins = \<lparr>store = plugins, deferred = [], heap = (\<lambda>a. Pending)\<rparr>"

definition decode ::
  "('j, 'n, 'u, 'v) env \<Rightarrow> 'u \<Rightarrow> string list \<Rightarrow> ('n, 'v) reason + ('n, 'u, 'v) decoded" where
  "decode env plugins reader =
     (let decoder = new_decoder plugins
      in case decodeInitial env decoder reader of
           Inl e \<Rightarrow> Inl e
         | Inr (decoded_done, v, dec, reader') \<Rightarrow>
             if decoded_done
             then Inr \<lparr>dvalue = v,
                       drain = Some \<lparr>final = dec, done_deferred = resolve Pending (),
                                     donePromise = resolve Pending ()\<rparr>\<rparr>
             else Inr \<lparr>dvalue = v,
                       drain = map_option settle_done (decodeDeferred env dec reader')\<rparr>)"

subsection \<open>The loop on a stream without empty chunks\<close>

text \<open>
  On a stream without empty chunks the loop of \<open>decodeDeferred\<close> is a plain recursion
  over the lines, which stops at the first line that throws (see \<open>decodeDeferred_run\<close>
  below).
\<close>

fun run_lines ::
  "('j, 'n, 'u, 'v) env \<Rightarrow> ('n, 'u, 'v) decoder \<Rightarrow> string list \<Rightarrow>
     ('n, 'v) reason option \<times> ('n, 'u, 'v) decoder" where
  "run_lines env dec [] = (None, dec)"
| "run_lines env dec (line # rest) =
     (case decodeDeferred_line env line dec of
        (Some e, dec') \<Rightarrow> (Some e, dec')
      | (None, dec') \<Rightarrow> run_lines env dec' rest)"

text \<open>The state of the placeholder registered under an id, if there is one.\<close>

definition placeholder ::
  "('n, 'u, 'v) decoder \<Rightarrow> 'n number \<Rightarrow> ('v, ('n, 'v) reason) promise option" where
  "placeholder dec k = map_option (heap dec) (map_of (deferred dec) k)"

subsection \<open>A sample of the collaborators\<close>

text \<open>
  For evaluating the model on concrete lines, the parameters are instantiated with a
  sample. It agrees with the collaborators on the lines that the examples below use:
  \<open>sample_JSON_parse\<close> with \<open>JSON.parse\<close> on the six texts of its table and on
  \<open>{\<close>, which is not JSON; \<open>sample_Number\<close> with \<open>Number\<close> on the empty string (zero),
  on short strings of decimal digits and on \<open>x\<close> (\<open>NaN\<close>); the markers are those of
  \<open>utils.js\<close>.
  Modelled from the spec: \<open>sample_unflatten\<close> stands for the repository's \<open>unflatten\<close>,
  which hydrates the fragment \<open>["P", id]\<close> to a new placeholder registered under the
  id, and the fragment of a number to that number. The id is used as a property key
  (\<open>deferred[id] = d\<close>), so the id \<open>"NaN"\<close> of the fragment \<open>["P","NaN"]\<close> registers
  the placeholder under the key that a later lookup \<open>this.deferred[NaN]\<close> reads.
\<close>

datatype json = JNum int | JStr string | JArr "json list"

definition sample_JSON_parse :: "string \<Rightarrow> json option" where
  "sample_JSON_parse s =
     (if s = [CHR ''['', CHR ''['', CHR 0x22, CHR ''P'', CHR 0x22, CHR '','', CHR ''0'', CHR '']'', CHR '']'']
      then Some (JArr [JArr [JStr ''P'', JNum 0]])
      else if s = [CHR ''['', CHR ''['', CHR 0x22, CHR ''P'', CHR 0x22, CHR '','', CHR ''1'', CHR '']'', CHR '']'']
      then Some (JArr [JArr [JStr ''P'', JNum 1]])
      else if s = [CHR ''['', CHR ''['', CHR 0x22, CHR ''P'', CHR 0x22, CHR '','',
                   CHR 0x22, CHR ''N'', CHR ''a'', CHR ''N'', CHR 0x22, CHR '']'', CHR '']'']
      then Some (JArr [JArr [JStr ''P'', JStr ''NaN'']])
      else if s = ''[1]'' then Some (JArr [JNum 1])
      else if s = ''[2]'' then Some (JArr [JNum 2])
      else if s = ''7'' then Some (JNum 7)
      else None)"

definition is_digit :: "char \<Rightarrow> bool" where
  "is_digit c = (48 \<le> (of_char c :: nat) \<and> (of_char c :: nat) \<le> 57)"

definition sample_Number :: "string \<Rightarrow> int number" where
  "sample_Number s =
     (if list_all is_digit s
      then Num (foldl (\<lambda>n c. 10 * n + (int (of_char c) - 48)) 0 s)
      else NaN)"

definition sample_unflatten ::
  "json \<Rightarrow> (int, unit, val) decoder \<Rightarrow> ((int, val) reason + val) \<times> (int, unit, val) decoder" where
  "sample_unflatten j dec =
     (case j of
        JArr [JArr [JStr t, JNum i]] \<Rightarrow>
          if t = ''P''
          then (let a = length (deferred dec)
                in (Inr (VPromise a),
                    dec\<lparr>deferred := (Num i, a) # deferred dec, heap := (heap dec)(a := Pending)\<rparr>))
          else (Inl SyntaxError, dec)
      | JArr [JArr [JStr t, JStr k]] \<Rightarrow>
          if t = ''P'' \<and> k = ''NaN''
          then (let a = length (deferred dec)
                in (Inr (VPromise a),
                    dec\<lparr>deferred := (NaN, a) # deferred dec, heap := (heap dec)(a := Pending)\<rparr>))
          else (Inl SyntaxError, dec)
      | JArr [JNum n] \<Rightarrow> (Inr (VNumber n), dec)
      | _ \<Rightarrow> (Inl SyntaxError, dec))"

definition sample_env :: "(json, int, unit, val) env" where
  "sample_env = \<lparr>TYPE_PROMISE = ''P'', TYPE_ERROR = ''E'', TYPE_PREVIOUS_RESOLVED = ''Z'',
                  JSON_parse = sample_JSON_parse,
                  Number = sample_Number, unflatten = sample_unflatten\<rparr>"

text \<open>The first line of the examples: the text \<open>[["P",0]]\<close>, a value that is one promise.\<close>

definition line_promise0 :: string where
  "line_promise0 = [CHR ''['', CHR ''['', CHR 0x22, CHR ''P'', CHR 0x22, CHR '','', CHR ''0'', CHR '']'', CHR '']'']"

text \<open>
  Two more lines: the text \<open>[["P","NaN"]]\<close>, a value that is one promise whose id is the
  string \<open>NaN\<close>, and the settlement line \<open>P0:[["P",1]]\<close>, which resolves the
  placeholder of id 0 with a value that holds a further promise, of id 1.
\<close>

definition line_promise_nan :: string where
  "line_promise_nan = [CHR ''['', CHR ''['', CHR 0x22, CHR ''P'', CHR 0x22, CHR '','',
                       CHR 0x22, CHR ''N'', CHR ''a'', CHR ''N'', CHR 0x22, CHR '']'', CHR '']'']"

definition line_resolve0_promise1 :: string where
  "line_resolve0_promise1 =
     [CHR ''P'', CHR ''0'', CHR '':'',
      CHR ''['', CHR ''['', CHR 0x22, CHR ''P'', CHR 0x22, CHR '','', CHR ''1'', CHR '']'', CHR '']'']"

subsection \<open>What a caller observes\<close>

text \<open>
  What a caller of \<open>decode\<close> can observe once draining is over: the state of the
  \<open>Deferred\<close> named \<open>done\<close>, the returned \<open>done\<close>, and the placeholder of an id.
\<close>

definition observed_done_deferred ::
  "('n, 'v) reason + ('n, 'u, 'v) decoded \<Rightarrow> (unit, ('n, 'v) reason) promise option" where
  "observed_done_deferred res =
     (case res of Inl e \<Rightarrow> None | Inr r \<Rightarrow> map_option done_deferred (drain r))"

definition observed_done ::
  "('n, 'v) reason + ('n, 'u, 'v) decoded \<Rightarrow> ('n, 'v) reason done_signal option" where
  "observed_done res = (case res of Inl e \<Rightarrow> None | Inr r \<Rightarrow> Some (returned_done r))"

definition observed_placeholder ::
  "('n, 'v) reason + ('n, 'u, 'v) decoded \<Rightarrow> 'n number \<Rightarrow> ('v, ('n, 'v) reason) promise option" where
  "observed_placeholder res k =
     (case res of
        Inl e \<Rightarrow> None
      | Inr r \<Rightarrow> (case drain r of None \<Rightarrow> None | Some d \<Rightarrow> placeholder (final d) k))"

section \<open>The encoder\<close>

subsection \<open>Numbers in template strings, \<open>join\<close> and \<open>Array.prototype.slice\<close>\<close>

text \<open>
  \<open>`${n}`\<close> for an integer: its decimal digits, with a minus sign when negative (the
  form JavaScript prints for integers below \<open>10^21\<close>).
\<close>

fun show_nat :: "nat \<Rightarrow> string" where
  "show_nat n =
     (if n < 10 then [''0123456789'' ! n]
      else show_nat (n div 10) @ [''0123456789'' ! (n mod 10)])"

definition show_int :: "int \<Rightarrow> string" where
  "show_int i = (if i < 0 then ''-'' @ show_nat (nat (- i)) else show_nat (nat i))"

text \<open>
  \<open>stringified\<close> is a JavaScript array that \<open>flatten\<close> writes by index, so it can have
  holes: an entry is a fragment or a hole (\<open>None\<close>). \<open>join\<close> prints a hole as the
  empty string.
\<close>

fun join :: "string \<Rightarrow> string option list \<Rightarrow> string" where
  "join sep [] = []"
| "join sep [x] = (case x of None \<Rightarrow> [] | Some s \<Rightarrow> s)"
| "join sep (x # y # ys) = (case x of None \<Rightarrow> [] | Some s \<Rightarrow> s) @ sep @ join sep (y # ys)"

text \<open>\<open>array.slice(start)\<close>: a negative start counts from the end.\<close>

definition array_slice :: "'a list \<Rightarrow> int \<Rightarrow> 'a list" where
  "array_slice xs start =
     (let len = int (length xs);
          from = (if start < 0 then max (len + start) 0 else min start len)
      in drop (nat from) xs)"

subsection \<open>The encoder state\<close>

text \<open>
  What \<open>flatten\<close> returns, \<open>number | [number]\<close>: an index or a negative sentinel, or an
  index wrapped in an array.
\<close>

datatype ref_id = Plain int | Wrapped int

text \<open>
  \<open>ThisEncode\<close>. The registry \<open>deferred\<close> (here \<open>edeferred\<close>) maps a deferred id to its
  promise; \<open>indices\<close> and \<open>plugins\<close> are used by \<open>flatten\<close> only and are kept together
  as \<open>indices\<close>. The cancellation token is part of the run state below.
\<close>

record 's encoder =
  edeferred :: "(nat \<times> val) list"
  index :: int
  indices :: 's
  stringified :: "string option list"

text \<open>
  \<open>flatten\<close> returns the reference id or what it throws, together with the encoder
  state it leaves behind.
\<close>

record 's encode_env = markers +
  flatten :: "val \<Rightarrow> 's encoder \<Rightarrow> (val + ref_id) \<times> 's encoder"

text \<open>
  The chunks that \<open>controller.enqueue\<close> receives. A chunk is kept as the frame it
  is; \<open>frame_text\<close> is its text, character for character the template string of the
  source (the \<open>TextEncoder\<close> then turns the text into bytes).
\<close>

datatype payload = Alias int | Sentinel int | Fragments "string option list"

datatype frame = First payload | Settlement string nat payload

definition payload_text :: "'a markers_scheme \<Rightarrow> payload \<Rightarrow> string" where
  "payload_text env p =
     (case p of
        Alias k \<Rightarrow> ''[['' @ [CHR 0x22] @ TYPE_PREVIOUS_RESOLVED env @ [CHR 0x22] @ '','' @ show_int k @ '']]''
      | Sentinel i \<Rightarrow> show_int i
      | Fragments xs \<Rightarrow> ''['' @ join '','' xs @ '']'')"

definition frame_text :: "'a markers_scheme \<Rightarrow> frame \<Rightarrow> string" where
  "frame_text env f =
     (case f of
        First p \<Rightarrow> payload_text env p @ [CHR 0x0A]
      | Settlement marker deferredId p \<Rightarrow>
          marker @ show_nat deferredId @ '':'' @ payload_text env p @ [CHR 0x0A])"

text \<open>The cancellation token: absent, or an \<open>AbortSignal\<close> that has fired or not.\<close>

datatype signal = Not_aborted | Aborted val

text \<open>
  The state of \<open>start\<close>: the encoder, \<open>lastSentIndex\<close>, the chunks enqueued so far
  and the token.
\<close>

record 's state =
  encoder :: "'s encoder"
  lastSentIndex :: int
  enqueued :: "frame list"
  signal :: "signal option"

definition enqueue :: "frame \<Rightarrow> 's state \<Rightarrow> 's state" where
  "enqueue f st = st\<lparr>enqueued := enqueued st @ [f]\<rparr>"

subsection \<open>The two handlers of a settlement\<close>

text \<open>
  The handler \<open>(resolved) => {...}\<close> of \<open>.then\<close>. The outcome is what the handler
  throws (if \<open>flatten\<close> throws) and the state it leaves.
\<close>

definition on_resolved ::
  "'s encode_env \<Rightarrow> nat \<Rightarrow> val \<Rightarrow> 's state \<Rightarrow> val option \<times> 's state" where
  "on_resolved env deferredId resolved st =
     (case flatten env resolved (encoder st) of
        (Inl e, enc) \<Rightarrow> (Some e, st\<lparr>encoder := enc\<rparr>)
      | (Inr (Wrapped k), enc) \<Rightarrow>
          (None, (enqueue (Settlement (TYPE_PROMISE env) deferredId (Alias k)) st)
                   \<lparr>encoder := enc\<lparr>index := index enc + 1\<rparr>,
                    lastSentIndex := lastSentIndex st + 1\<rparr>)
      | (Inr (Plain i), enc) \<Rightarrow>
          if i < 0 then
            (None, (enqueue (Settlement (TYPE_PROMISE env) deferredId (Sentinel i)) st)
                     \<lparr>encoder := enc\<rparr>)
          else
            (let values = array_slice (stringified enc) (lastSentIndex st + 1)
             in (None, (enqueue (Settlement (TYPE_PROMISE env) deferredId (Fragments values)) st)
                         \<lparr>encoder := enc,
                          lastSentIndex := int (length (stringified enc)) - 1\<rparr>)))"

text \<open>The handler \<open>(reason) => {...}\<close> of \<open>.then\<close>.\<close>

definition on_rejected ::
  "'s encode_env \<Rightarrow> nat \<Rightarrow> val \<Rightarrow> 's state \<Rightarrow> val option \<times> 's state" where
  "on_rejected env deferredId reason0 st =
     (let reason =
            (if \<not> truthy reason0 \<or> \<not> typeof_object reason0 \<or> \<not> instanceof_Error reason0
             then VError ''An unknown error occurred'' else reason0)
      in case flatten env reason (encoder st) of
        (Inl e, enc) \<Rightarrow> (Some e, st\<lparr>encoder := enc\<rparr>)
      | (Inr (Wrapped k), enc) \<Rightarrow>
          (None, (enqueue (Settlement (TYPE_ERROR env) deferredId (Alias k)) st)
                   \<lparr>encoder := enc\<lparr>index := index enc + 1\<rparr>,
                    lastSentIndex := lastSentIndex st + 1\<rparr>)
      | (Inr (Plain i), enc) \<Rightarrow>
          if i < 0 then
            (None, (enqueue (Settlement (TYPE_ERROR env) deferredId (Sentinel i)) st)
                     \<lparr>encoder := enc\<rparr>)
          else
            (let values = array_slice (stringified enc) (lastSentIndex st + 1)
             in (None, (enqueue (Settlement (TYPE_ERROR env) deferredId (Fragments values)) st)
                         \<lparr>encoder := enc,
                          lastSentIndex := int (length (stringified enc)) - 1\<rparr>)))"

subsection \<open>\<open>raceSignal\<close>\<close>

text \<open>
  How a promise settles, and what \<open>raceSignal(promise, signal)\<close> returns: the promise
  itself when there is no token, a promise that is already rejected when the token has
  fired, and otherwise the race of the promise with the \<open>abort\<close> event of the token.
  The rejection is with \<open>signal.reason || new Error("Signal was aborted.")\<close>, in
  \<open>raceSignal\<close> and in the listener of the race alike.
\<close>

datatype settlement = Resolves val | Rejects val

datatype race = The_promise | Rejected_already val | Race_with_abort

definition abort_reason :: "val \<Rightarrow> val" where
  "abort_reason r = (if truthy r then r else VError ''Signal was aborted.'')"

definition raceSignal :: "signal option \<Rightarrow> race" where
  "raceSignal sig =
     (case sig of
        None \<Rightarrow> The_promise
      | Some Not_aborted \<Rightarrow> Race_with_abort
      | Some (Aborted r) \<Rightarrow> Rejected_already (abort_reason r))"

subsection \<open>The settlement loop of \<open>encode\<close>\<close>

text \<open>
  \<open>Object.keys\<close> of the registry, in the order of \<open>Object.entries\<close> (integer keys
  ascending), and \<open>delete encoder.deferred[id]\<close>.
\<close>

definition Object_keys :: "(nat \<times> 'a) list \<Rightarrow> nat list" where
  "Object_keys reg = sort (remdups (map fst reg))"

definition delete_deferred :: "nat \<Rightarrow> 's state \<Rightarrow> 's state" where
  "delete_deferred d st =
     st\<lparr>encoder := (encoder st)\<lparr>edeferred := filter (\<lambda>(k, p). k \<noteq> d) (edeferred (encoder st))\<rparr>\<rparr>"

text \<open>
  The chain \<open>.then(onResolved, onRejected).finally(() => delete encoder.deferred[id])\<close>
  of one raced promise that settles.
\<close>

definition settle :: "'s encode_env \<Rightarrow> nat \<Rightarrow> settlement \<Rightarrow> 's state \<Rightarrow> val option \<times> 's state" where
  "settle env d s st =
     (case (case s of Resolves v \<Rightarrow> on_resolved env d v st | Rejects r \<Rightarrow> on_rejected env d r st) of
        (thrown, st') \<Rightarrow> (thrown, delete_deferred d st'))"

text \<open>
  What happens while \<open>start\<close> waits in \<open>Promise.race\<close>, in the order in which it
  happens: the promise of a deferred id settles; several promises settle in the same
  turn, or had settled before their races were started, so that their chains run one
  behind the other, in the order given, before \<open>start\<close> resumes; or the token fires with
  a reason.
\<close>

datatype event = Settles nat settlement | Together "(nat \<times> settlement) list" | Aborts val

text \<open>How the stream ends: closed, errored with what \<open>start\<close> threw, or never (the
  registry is not empty and nothing more happens).\<close>

datatype ending = Closed | Errored val | Waiting

text \<open>
  The chains that run before \<open>start\<close> resumes, one for each settlement of an entry that
  is in flight (a chain runs once): what each chain threw, in the order in which the
  chains settled, and the state that they leave. Every chain ends with its \<open>finally\<close>,
  whether its handler threw or not.
\<close>

fun race_chains ::
  "'s encode_env \<Rightarrow> nat list \<Rightarrow> (nat \<times> settlement) list \<Rightarrow> 's state \<Rightarrow> val option list \<times> 's state" where
  "race_chains env inflight [] st = ([], st)"
| "race_chains env inflight ((k, s) # rest) st =
     (if k \<in> set inflight then
        (case settle env k s st of
           (thrown, st') \<Rightarrow>
             (case race_chains env (removeAll k inflight) rest st' of
                (ts, st'') \<Rightarrow> (thrown # ts, st'')))
      else race_chains env inflight rest st)"

text \<open>
  \<open>Promise.race\<close> settles as the first of its chains to settle: \<open>await\<close> throws what
  that chain threw, if it threw. What a later chain throws reaches a race that is already
  settled, and is dropped.
\<close>

definition race_rejection :: "val option list \<Rightarrow> val option" where
  "race_rejection ts = (case ts of [] \<Rightarrow> None | t # later \<Rightarrow> t)"

text \<open>
  The \<open>while\<close> loop of \<open>start\<close>. One round starts the races of the entries that are
  not in flight and waits in \<open>Promise.race\<close> for the first chain to settle. When that
  chain threw, \<open>start\<close> throws and the stream is errored; otherwise the loop tests the
  registry again. The chains that settle behind the first one before \<open>start\<close> resumes
  have run by then, and their entries are deleted, but what they threw is dropped. When
  the token has fired, the race of every entry is rejected with the same reason, whether
  the entry was in flight (the listener rejects it) or its race starts now
  (\<open>raceSignal\<close> rejects it), so the state does not record which entries are in flight;
  their chains all run before \<open>start\<close> resumes, in the order of \<open>Object.entries\<close>.
  Otherwise the next event decides. Flattening may register new entries for ever, so the
  loop is a partial function.
\<close>

partial_function (option) settle_loop ::
  "'s encode_env \<Rightarrow> event list \<Rightarrow> 's state \<Rightarrow> ('s state \<times> ending) option" where
  "settle_loop env sched st =
     (case Object_keys (edeferred (encoder st)) of
        [] \<Rightarrow> Some (st, Closed)
      | d # ds \<Rightarrow>
          (case raceSignal (signal st) of
             Rejected_already r \<Rightarrow>
               (case race_chains env (d # ds) (map (\<lambda>k. (k, Rejects r)) (d # ds)) st of
                  (ts, st') \<Rightarrow>
                    (case race_rejection ts of
                       Some e \<Rightarrow> Some (st', Errored e)
                     | None \<Rightarrow> settle_loop env sched st'))
           | Race_with_abort \<Rightarrow>
               (case sched of
                  [] \<Rightarrow> Some (st, Waiting)
                | Aborts r # rest \<Rightarrow> settle_loop env rest (st\<lparr>signal := Some (Aborted r)\<rparr>)
                | Settles k s # rest \<Rightarrow>
                    if k \<in> set (d # ds) then
                      (case settle env k s st of
                         (Some e, st') \<Rightarrow> Some (st', Errored e)
                       | (None, st') \<Rightarrow> settle_loop env rest st')
                    else settle_loop env rest st
                | Together kss # rest \<Rightarrow>
                    (case race_chains env (d # ds) kss st of
                       (ts, st') \<Rightarrow>
                         (case race_rejection ts of
                            Some e \<Rightarrow> Some (st', Errored e)
                          | None \<Rightarrow> settle_loop env rest st')))
           | The_promise \<Rightarrow>
               (case sched of
                  [] \<Rightarrow> Some (st, Waiting)
                | Aborts r # rest \<Rightarrow> settle_loop env rest st
                | Settles k s # rest \<Rightarrow>
                    if k \<in> set (d # ds) then
                      (case settle env k s st of
                         (Some e, st') \<Rightarrow> Some (st', Errored e)
                       | (None, st') \<Rightarrow> settle_loop env rest st')
                    else settle_loop env rest st
                | Together kss # rest \<Rightarrow>
                    (case race_chains env (d # ds) kss st of
                       (ts, st') \<Rightarrow>
                         (case race_rejection ts of
                            Some e \<Rightarrow> Some (st', Errored e)
                          | None \<Rightarrow> settle_loop env rest st')))))"

declare settle_loop.simps [code]

text \<open>
  The settlements that the chains of a run can meet: those of the schedule, and the
  rejection with the reason of the token, when the token has fired or fires. And the
  value that the chain of a settlement hands to \<open>flatten\<close>: the value of a resolution,
  the reason of a rejection once the handler has made it an \<open>Error\<close>.
\<close>

fun event_settlements :: "event \<Rightarrow> settlement list" where
  "event_settlements (Settles k s) = [s]"
| "event_settlements (Together kss) = map snd kss"
| "event_settlements (Aborts r) = [Rejects (abort_reason r)]"

definition run_settlements :: "signal option \<Rightarrow> event list \<Rightarrow> settlement list" where
  "run_settlements sig sched =
     (case sig of Some (Aborted r) \<Rightarrow> [Rejects (abort_reason r)] | _ \<Rightarrow> [])
     @ concat (map event_settlements sched)"

definition flattened :: "settlement \<Rightarrow> val" where
  "flattened s =
     (case s of
        Resolves v \<Rightarrow> v
      | Rejects r \<Rightarrow>
          if \<not> truthy r \<or> \<not> typeof_object r \<or> \<not> instanceof_Error r
          then VError ''An unknown error occurred'' else r)"

subsection \<open>\<open>encode\<close>\<close>

text \<open>
  The encoder that \<open>encode\<close> starts from: an empty registry, the cursor at zero, an
  empty table, and what \<open>flatten\<close> keeps for itself (the empty map \<open>indices\<close> and the
  plugins of the options).
\<close>

definition new_encoder :: "'s \<Rightarrow> 's encoder" where
  "new_encoder plugins = \<lparr>edeferred = [], index = 0, indices = plugins, stringified = []\<rparr>"

text \<open>
  \<open>encode\<close> with the \<open>start\<close> of its stream: the initial flatten and the first
  chunk, then the settlement loop. \<open>None\<close> is a loop that never ends.
\<close>

definition encode ::
  "'s encode_env \<Rightarrow> 's \<Rightarrow> signal option \<Rightarrow> val \<Rightarrow> event list \<Rightarrow> ('s state \<times> ending) option" where
  "encode env plugins sig input sched =
     (let st = \<lparr>encoder = new_encoder plugins, lastSentIndex = 0, enqueued = [], signal = sig\<rparr>
      in case flatten env input (encoder st) of
           (Inl e, enc) \<Rightarrow> Some (st\<lparr>encoder := enc\<rparr>, Errored e)
         | (Inr (Wrapped k), enc) \<Rightarrow>
             Some (st\<lparr>encoder := enc\<rparr>, Errored (VError ''This should never happen''))
         | (Inr (Plain i), enc) \<Rightarrow>
             if i < 0 then
               settle_loop env sched ((enqueue (First (Sentinel i)) st)\<lparr>encoder := enc\<rparr>)
             else
               settle_loop env sched
                 ((enqueue (First (Fragments (stringified enc))) st)
                    \<lparr>encoder := enc, lastSentIndex := int (length (stringified enc)) - 1\<rparr>))"

subsection \<open>The wire and the fragment table, slot by slot\<close>

text \<open>
  The slots that a frame fills in the table of the receiver: the fragments of a table
  frame, one slot without a fragment for an alias frame (the slot for which the handler
  advances \<open>index\<close> and \<open>lastSentIndex\<close>), none for a sentinel.
\<close>

fun frame_slots :: "frame \<Rightarrow> string option list" where
  "frame_slots (First (Fragments xs)) = xs"
| "frame_slots (First (Alias k)) = []"
| "frame_slots (First (Sentinel i)) = []"
| "frame_slots (Settlement m d (Fragments xs)) = xs"
| "frame_slots (Settlement m d (Alias k)) = [None]"
| "frame_slots (Settlement m d (Sentinel i)) = []"

definition wire_slots :: "frame list \<Rightarrow> string option list" where
  "wire_slots fs = concat (map frame_slots fs)"

text \<open>The fragment table up to the cursor \<open>index\<close>: holes behind the last fragment.\<close>

definition table_slots :: "'s encoder \<Rightarrow> string option list" where
  "table_slots enc = stringified enc @ replicate (nat (index enc) - length (stringified enc)) None"

text \<open>
  Modelled from the spec: the contract of \<open>flatten\<close> (file \<open>flatten.js\<close>), as far as
  the table is concerned. A sentinel and a back-reference need no table slot and register
  nothing; an index means that fresh slots, from the cursor on, were written and the
  cursor moved behind them, the earlier slots being as they were.
\<close>

definition flatten_contract :: "'s encode_env \<Rightarrow> bool" where
  "flatten_contract env =
     (\<forall>v enc. int (length (stringified enc)) \<le> index enc \<longrightarrow>
        (case flatten env v enc of
           (Inl e, enc') \<Rightarrow> True
         | (Inr (Wrapped k), enc') \<Rightarrow>
             stringified enc' = stringified enc \<and> index enc' = index enc
             \<and> edeferred enc' = edeferred enc
         | (Inr (Plain i), enc') \<Rightarrow>
             if i < 0
             then stringified enc' = stringified enc \<and> index enc' = index enc
                  \<and> edeferred enc' = edeferred enc
             else (\<exists>new. stringified enc' = table_slots enc @ new)
                  \<and> index enc' = int (length (stringified enc'))))"

text \<open>
  The wire is in step with the table: slot by slot, what the frames carry is the table up
  to the cursor.
\<close>

definition in_step :: "'s state \<Rightarrow> bool" where
  "in_step st =
     (wire_slots (enqueued st) = table_slots (encoder st)
      \<and> int (length (stringified (encoder st))) \<le> index (encoder st))"

text \<open>
  What a reader of the stream observes of a run of \<open>encode\<close>: how the stream ends and
  the slots that its frames carry; and, beside it, the fragment table that the encoder
  is left with.
\<close>

definition observed_ending :: "('s state \<times> ending) option \<Rightarrow> ending option" where
  "observed_ending res = map_option snd res"

definition observed_wire :: "('s state \<times> ending) option \<Rightarrow> string option list option" where
  "observed_wire res = map_option (\<lambda>(st, fin). wire_slots (enqueued st)) res"

definition observed_table :: "('s state \<times> ending) option \<Rightarrow> string option list option" where
  "observed_table res = map_option (\<lambda>(st, fin). stringified (encoder st)) res"


text \<open>
  The three-way payload rule of a settlement frame, in the words of the specification
  (4.2 b): a back-reference gives an alias frame and advances the cursor and the
  high-water mark by one; a sentinel gives a frame with the sentinel; otherwise the frame
  carries the slice of the table strictly after the high-water mark, which then moves to
  the last index.
\<close>

definition settlement_frame ::
  "'s encode_env \<Rightarrow> string \<Rightarrow> nat \<Rightarrow> val \<Rightarrow> 's state \<Rightarrow> val option \<times> 's state" where
  "settlement_frame env marker d v st =
     (case flatten env v (encoder st) of
        (Inl e, enc) \<Rightarrow> (Some e, st\<lparr>encoder := enc\<rparr>)
      | (Inr rid, enc) \<Rightarrow>
          (None,
           (case rid of
              Wrapped k \<Rightarrow>
                \<lparr>encoder = enc\<lparr>index := index enc + 1\<rparr>, lastSentIndex = lastSentIndex st + 1,
                 enqueued = enqueued st @ [Settlement marker d (Alias k)], signal = signal st\<rparr>
            | Plain i \<Rightarrow>
                if i < 0
                then \<lparr>encoder = enc, lastSentIndex = lastSentIndex st,
                      enqueued = enqueued st @ [Settlement marker d (Sentinel i)], signal = signal st\<rparr>
                else \<lparr>encoder = enc, lastSentIndex = int (length (stringified enc)) - 1,
                      enqueued = enqueued st @
                        [Settlement marker d (Fragments (drop (nat (lastSentIndex st + 1)) (stringified enc)))],
                      signal = signal st\<rparr>)))"

text \<open>The well-formed error value of a rejection reason, in the words of the specification (4.2 c).\<close>

definition normalized :: "val \<Rightarrow> val" where
  "normalized r = (if instanceof_Error r then r else VError ''An unknown error occurred'')"

subsection \<open>A sample \<open>flatten\<close>\<close>

text \<open>
  Modelled from the spec: \<open>sample_flatten\<close> stands for the repository's \<open>flatten\<close> on
  the values of the examples. A value seen before (at an index other than zero) gives
  the back-reference, \<open>undefined\<close> and \<open>null\<close> give their sentinels, and any other
  value is written at the cursor: a promise as the fragment \<open>["P", index]\<close>, registered
  under its index, an error as the fragment \<open>["E", index + 1]\<close> followed by its message.
  Two objects are known to the sample. The object 1 is the array of the promises 1 and
  2: its fragment lists the indices of its two elements, which are written behind it. The
  object 0 is an object \<open>{f() {}}\<close> with a method: its key is written, behind the slot
  kept for the object, and then the function makes \<open>flatten\<close> throw. Any other object is
  empty.
\<close>

definition quoted :: "string \<Rightarrow> string" where
  "quoted s = [CHR 0x22] @ s @ [CHR 0x22]"

definition sample_fragments :: "val \<Rightarrow> int \<Rightarrow> string option list" where
  "sample_fragments v i =
     (case v of
        VNumber n \<Rightarrow> [Some (show_int n)]
      | VString s \<Rightarrow> [Some (quoted s)]
      | VBool b \<Rightarrow> [Some (if b then ''true'' else ''false'')]
      | VObject a \<Rightarrow>
          if a = 1
          then [Some (''['' @ show_int (i + 1) @ '','' @ show_int (i + 2) @ '']''),
                Some (''['' @ quoted ''P'' @ '','' @ show_int (i + 1) @ '']''),
                Some (''['' @ quoted ''P'' @ '','' @ show_int (i + 2) @ '']'')]
          else [Some ''{}'']
      | VError m \<Rightarrow> [Some (''['' @ quoted ''E'' @ '','' @ show_int (i + 1) @ '']''), Some (quoted m)]
      | VPromise a \<Rightarrow> [Some (''['' @ quoted ''P'' @ '','' @ show_int i @ '']'')]
      | _ \<Rightarrow> [])"

definition sample_registers :: "val \<Rightarrow> int \<Rightarrow> (nat \<times> val) list" where
  "sample_registers v i =
     (case v of
        VPromise a \<Rightarrow> [(nat i, v)]
      | VObject a \<Rightarrow> if a = 1 then [(nat (i + 1), VPromise 1), (nat (i + 2), VPromise 2)] else []
      | _ \<Rightarrow> [])"

definition sample_write :: "val \<Rightarrow> (val \<times> int) list encoder \<Rightarrow> (val + ref_id) \<times> (val \<times> int) list encoder" where
  "sample_write input enc =
     (let i = index enc
      in if input = VObject 0
         then (Inl (VError ''Cannot encode function or unexpected type''),
               enc\<lparr>index := i + 3,
                   indices := (VString ''f'', i + 1) # (input, i) # indices enc,
                   stringified := table_slots enc @ [None, Some (quoted ''f'')]\<rparr>)
         else (let new = sample_fragments input i
               in (Inr (Plain i),
                   enc\<lparr>edeferred := edeferred enc @ sample_registers input i,
                       index := i + int (length new),
                       indices := (input, i) # indices enc,
                       stringified := table_slots enc @ new\<rparr>)))"

definition sample_flatten :: "val \<Rightarrow> (val \<times> int) list encoder \<Rightarrow> (val + ref_id) \<times> (val \<times> int) list encoder" where
  "sample_flatten input enc =
     (case map_of (indices enc) input of
        Some existing \<Rightarrow>
          if existing \<noteq> 0 then (Inr (Wrapped existing), enc) else sample_write input enc
      | None \<Rightarrow>
          if input = VUndefined then (Inr (Plain (- 7)), enc)
          else if input = VNull then (Inr (Plain (- 5)), enc)
          else sample_write input enc)"

definition sample_encode_env :: "(val \<times> int) list encode_env" where
  "sample_encode_env = \<lparr>TYPE_PROMISE = ''P'', TYPE_ERROR = ''E'', TYPE_PREVIOUS_RESOLVED = ''Z'',
                         flatten = sample_flatten\<rparr>"

text \<open>
  A \<open>flatten\<close> that breaks its contract and wraps the reference of the input itself;
  the fragment \<open>["P",0]\<close>; and the state of \<open>start\<close> after the first chunk when the
  input is one promise.
\<close>

definition broken_encode_env :: "(val \<times> int) list encode_env" where
  "broken_encode_env = sample_encode_env\<lparr>flatten := (\<lambda>v enc. (Inr (Wrapped 0), enc))\<rparr>"

definition fragment_promise0 :: string where
  "fragment_promise0 = [CHR ''['', CHR 0x22, CHR ''P'', CHR 0x22, CHR '','', CHR ''0'', CHR '']'']"

definition sample_state :: "signal option \<Rightarrow> (val \<times> int) list state" where
  "sample_state sig =
     \<lparr>encoder = \<lparr>edeferred = [(0, VPromise 1)], index = 1, indices = [(VPromise 1, 0)],
                 stringified = [Some fragment_promise0]\<rparr>,
      lastSentIndex = 0,
      enqueued = [First (Fragments [Some fragment_promise0])],
      signal = sig\<rparr>"

text \<open>
  The array of two promises: its three fragments \<open>[1,2]\<close>, \<open>["P",1]\<close> and \<open>["P",2]\<close>,
  the state of \<open>start\<close> after the first chunk when it is the input, and the schedule in
  which both promises settle in the same turn (or had settled before \<open>encode\<close> was
  called), the first with the number 7 and the second with a given value.
\<close>

definition fragment_array12 :: string where
  "fragment_array12 = ''[1,2]''"

definition fragment_promise1 :: string where
  "fragment_promise1 = [CHR ''['', CHR 0x22, CHR ''P'', CHR 0x22, CHR '','', CHR ''1'', CHR '']'']"

definition fragment_promise2 :: string where
  "fragment_promise2 = [CHR ''['', CHR 0x22, CHR ''P'', CHR 0x22, CHR '','', CHR ''2'', CHR '']'']"

definition sample_two :: "signal option \<Rightarrow> (val \<times> int) list state" where
  "sample_two sig =
     \<lparr>encoder = \<lparr>edeferred = [(1, VPromise 1), (2, VPromise 2)], index = 3,
                 indices = [(VObject 1, 0)],
                 stringified = [Some fragment_array12, Some fragment_promise1, Some fragment_promise2]\<rparr>,
      lastSentIndex = 2,
      enqueued = [First (Fragments [Some fragment_array12, Some fragment_promise1, Some fragment_promise2])],
      signal = sig\<rparr>"

definition sample_together :: "val \<Rightarrow> event list" where
  "sample_together v = [Together [(1, Resolves (VNumber 7)), (2, Resolves v)]]"


section \<open>Properties of the decoder\<close>

subsection \<open>The loop of \<open>decodeDeferred\<close>\<close>

text \<open>
  A loop that returns was entered either at the end of the stream or on a non-empty
  chunk: on an empty chunk the body is \<open>continue\<close>, which tests the same \<open>read\<close>
  again.
\<close>

lemma loop_returns_only_off_blank:
  assumes "decodeDeferred_loop env read reader dec = Some y"
  shows "rdone read \<or> (\<exists>line. rvalue read = Some line \<and> line \<noteq> [])"
proof (rule decodeDeferred_loop.raw_induct
      [where P = "\<lambda>env read reader dec y. rdone read \<or> (\<exists>line. rvalue read = Some line \<and> line \<noteq> [])",
        OF _ assms])
  show "rdone read \<or> (\<exists>line. rvalue read = Some line \<and> line \<noteq> [])"
    if "\<And>env read reader dec y. loop env read reader dec = Some y \<Longrightarrow>
          rdone read \<or> (\<exists>line. rvalue read = Some line \<and> line \<noteq> [])"
      and "(if rdone read then Some (None, dec)
            else case rvalue read of
                   None \<Rightarrow> loop env read reader dec
                 | Some line \<Rightarrow>
                     if line = [] then loop env read reader dec
                     else (case decodeDeferred_line env line dec of
                             (None, dec') \<Rightarrow>
                               (case reader_read reader of
                                  (read', reader') \<Rightarrow> loop env read' reader' dec')
                           | (Some e, dec') \<Rightarrow> Some (Some e, dec'))) = Some y"
    for loop env read reader dec y
    using that(2) that(1) [of env read reader dec y]
    by (auto split: if_splits option.splits)
qed

lemma loop_blank:
  "\<not> rdone read \<Longrightarrow> rvalue read = None \<or> rvalue read = Some [] \<Longrightarrow>
     decodeDeferred_loop env read reader dec = None"
  using loop_returns_only_off_blank [of env read reader dec]
  by (cases "decodeDeferred_loop env read reader dec") auto

lemma decodeDeferred_Nil: "decodeDeferred env dec [] = Some (None, dec)"
  by (subst decodeDeferred_def, simp add: reader_read_def, subst decodeDeferred_loop.simps, simp)

lemma decodeDeferred_Cons:
  "line \<noteq> [] \<Longrightarrow> decodeDeferred env dec (line # rest) =
     (case decodeDeferred_line env line dec of
        (Some e, dec') \<Rightarrow> Some (Some e, dec')
      | (None, dec') \<Rightarrow> decodeDeferred env dec' rest)"
  by (subst decodeDeferred_def, simp add: reader_read_def, subst decodeDeferred_loop.simps)
     (simp add: decodeDeferred_def split: prod.splits option.splits)

text \<open>
  Termination: on a stream without empty chunks \<open>decodeDeferred\<close> returns, after it has
  processed the lines in order up to the end of the stream or to the first line that
  throws.
\<close>

lemma decodeDeferred_run:
  "[] \<notin> set reader \<Longrightarrow> decodeDeferred env dec reader = Some (run_lines env dec reader)"
proof (induction reader arbitrary: dec)
  case Nil
  show ?case by (simp add: decodeDeferred_Nil)
next
  case (Cons line rest)
  then show ?case
    by (auto simp: decodeDeferred_Cons split: prod.splits option.splits)
qed

lemma decodeDeferred_after:
  "[] \<notin> set pre \<Longrightarrow> run_lines env dec pre = (None, dec') \<Longrightarrow>
     decodeDeferred env dec (pre @ rest) = decodeDeferred env dec' rest"
proof (induction pre arbitrary: dec)
  case Nil
  then show ?case by simp
next
  case (Cons line pre)
  then show ?case
    by (auto simp: decodeDeferred_Cons split: prod.splits option.splits)
qed

text \<open>
  An empty chunk anywhere behind lines that were processed: the loop never returns, and
  the lines behind the empty chunk are never read.
\<close>

lemma blank_after_prefix:
  "[] \<notin> set pre \<Longrightarrow> run_lines env dec pre = (None, dec') \<Longrightarrow>
     decodeDeferred env dec (pre @ [] # rest) = None"
  by (simp add: decodeDeferred_after) (simp add: decodeDeferred_def reader_read_def loop_blank)

text \<open>
  C1 (the code does not do what the claim says). The claim: for every finite sequence of
  lines the loop of \<open>decodeDeferred\<close> processes each line and returns when the stream
  ends, and a blank line is skipped and the lines behind it are processed. On streams
  without a blank line the loop does return (\<open>decodeDeferred_run\<close>). On a blank line
  \<open>continue\<close> jumps to the loop test without reading the next chunk, so the same blank
  chunk is tested forever: \<open>decodeDeferred\<close> never returns, whatever follows the blank
  line.
\<close>

theorem blank_line_never_returns: "decodeDeferred env dec ([] # rest) = None"
  by (simp add: decodeDeferred_def reader_read_def loop_blank)

subsection \<open>Evaluating the sample\<close>

lemma sample_env_simps:
  "TYPE_PROMISE sample_env = ''P''" "TYPE_ERROR sample_env = ''E''"
  "JSON_parse sample_env = sample_JSON_parse" "Number sample_env = sample_Number"
  "unflatten sample_env = sample_unflatten"
  by (simp_all add: sample_env_def)

lemmas sample_eval = sample_env_simps sample_JSON_parse_def sample_unflatten_def sample_Number_def
  is_digit_def line_promise0_def indexOf_def slice_def slice_from_def reader_read_def

lemmas observe_eval = observed_done_deferred_def observed_placeholder_def observed_done_def
  settle_done_def reject_all_def Object_values_def deferred_reject_def deferred_resolve_def
  reject_def resolve_def placeholder_def returned_done_def then_reader_closed_def

lemma decode_run:
  "decodeInitial env (new_decoder p) reader = Inr (False, v, dec, lines) \<Longrightarrow>
   [] \<notin> set lines \<Longrightarrow>
   decode env p reader = Inr \<lparr>dvalue = v, drain = Some (settle_done (run_lines env dec lines))\<rparr>"
  by (simp add: decode_def decodeDeferred_run)

lemma sample_initial:
  "decodeInitial sample_env (new_decoder ()) (line_promise0 # lines)
   = Inr (False, VPromise 0, \<lparr>store = (), deferred = [(Num 0, 0)], heap = (\<lambda>a. Pending)(0 := Pending)\<rparr>, lines)"
  by (simp add: decodeInitial_def new_decoder_def sample_eval)

lemma sample_line_P5:
  "decodeDeferred_line sample_env ''P5:[1]'' \<lparr>store = (), deferred = [(Num 0, 0)], heap = h\<rparr>
   = (Some (NotFound (Num 5)), \<lparr>store = (), deferred = [(Num 0, 0)], heap = h\<rparr>)"
  by (simp add: decodeDeferred_line_def sample_eval)

lemma sample_line_P0:
  "decodeDeferred_line sample_env ''P0:[1]'' \<lparr>store = (), deferred = [(Num 0, 0)], heap = h\<rparr>
   = (None, \<lparr>store = (), deferred = [(Num 0, 0)], heap = h(0 := resolve (h 0) (VNumber 1))\<rparr>)"
  by (simp add: decodeDeferred_line_def sample_eval deferred_resolve_def)

lemma sample_line_P0_2:
  "decodeDeferred_line sample_env ''P0:[2]'' \<lparr>store = (), deferred = [(Num 0, 0)], heap = h\<rparr>
   = (None, \<lparr>store = (), deferred = [(Num 0, 0)], heap = h(0 := resolve (h 0) (VNumber 2))\<rparr>)"
  by (simp add: decodeDeferred_line_def sample_eval deferred_resolve_def)

subsection \<open>Errors\<close>

lemma decodeInitial_no_line: "decodeInitial env dec [] = Inl SyntaxError"
  by (simp add: decodeInitial_def reader_read_def)

lemma decodeInitial_not_json:
  "JSON_parse env text = None \<Longrightarrow> decodeInitial env dec (text # rest) = Inl SyntaxError"
  by (simp add: decodeInitial_def reader_read_def)

lemma line_unknown_marker:
  "take 1 line \<noteq> TYPE_PROMISE env \<Longrightarrow> take 1 line \<noteq> TYPE_ERROR env \<Longrightarrow>
     decodeDeferred_line env line dec = (Some SyntaxError, dec)"
  by (simp add: decodeDeferred_line_def)

lemma line_unknown_id:
  "take 1 line = TYPE_PROMISE env \<or> take 1 line = TYPE_ERROR env \<Longrightarrow>
   map_of (deferred dec) (Number env (slice line 1 (indexOf line CHR '':''))) = None \<Longrightarrow>
     decodeDeferred_line env line dec =
       (Some (NotFound (Number env (slice line 1 (indexOf line CHR '':'')))), dec)"
  by (auto simp: decodeDeferred_line_def Let_def)

text \<open>
  C9. The first step of \<open>decode\<close> throws a syntax error, and \<open>decode\<close> gives no value,
  when no initial line is available and when the initial line is not valid JSON; and a
  settlement line whose first character is neither the resolution marker nor the
  rejection marker makes \<open>decodeDeferred\<close> throw a syntax error, whatever follows it.
\<close>

theorem decode_syntax_errors:
  "decode env p [] = Inl SyntaxError
   \<and> (JSON_parse env text = None \<longrightarrow> decode env p (text # rest) = Inl SyntaxError)
   \<and> (line \<noteq> [] \<and> take 1 line \<noteq> TYPE_PROMISE env \<and> take 1 line \<noteq> TYPE_ERROR env \<longrightarrow>
        decodeDeferred env dec (line # rest') = Some (Some SyntaxError, dec))"
  by (simp add: decode_def decodeInitial_no_line decodeInitial_not_json decodeDeferred_Cons
      line_unknown_marker)

theorem decode_syntax_errors_witness:
  "decode sample_env () [] = Inl SyntaxError
   \<and> JSON_parse sample_env ''{'' = None
   \<and> decode sample_env () [''{'', ''P0:[1]''] = Inl SyntaxError
   \<and> decodeDeferred sample_env (new_decoder ()) [''X0:[1]'', ''P0:[1]'']
       = Some (Some SyntaxError, new_decoder ())"
  using decode_syntax_errors [of sample_env "()" "''{''" "[''P0:[1]'']" "''X0:[1]''" "new_decoder ()" "[''P0:[1]'']"]
  by (simp add: sample_eval)

text \<open>
  C10 fails as stated: an id field that is not a number is looked up under the key of
  \<open>NaN\<close>, and that key can be registered. The first line \<open>[["P","NaN"]]\<close> registers a
  placeholder under it; the line \<open>Px:[1]\<close>, whose id field \<open>x\<close> is not a number, then
  finds that placeholder and resolves it, nothing is thrown and \<open>done\<close> is resolved.
\<close>

theorem nan_key_counterexample:
  "Number sample_env (slice ''Px:[1]'' 1 (indexOf ''Px:[1]'' CHR '':'')) = NaN
   \<and> decodeDeferred sample_env \<lparr>store = (), deferred = [(NaN, 0)], heap = (\<lambda>a. Pending)\<rparr> [''Px:[1]'']
       = Some (None, \<lparr>store = (), deferred = [(NaN, 0)], heap = (\<lambda>a. Pending)(0 := Fulfilled (VNumber 1))\<rparr>)
   \<and> observed_placeholder (decode sample_env () [line_promise_nan, ''Px:[1]'']) NaN
       = Some (Fulfilled (VNumber 1))
   \<and> observed_done_deferred (decode sample_env () [line_promise_nan, ''Px:[1]'']) = Some (Fulfilled ())"
proof -
  let ?d = "\<lparr>store = (), deferred = [(NaN, 0)], heap = (\<lambda>a. Pending)\<rparr> :: (int, unit, val) decoder"
  let ?d' = "\<lparr>store = (), deferred = [(NaN, 0)], heap = (\<lambda>a. Pending)(0 := Fulfilled (VNumber 1))\<rparr>
               :: (int, unit, val) decoder"
  have n: "Number sample_env (slice ''Px:[1]'' 1 (indexOf ''Px:[1]'' CHR '':'')) = NaN"
    by (simp add: sample_eval)
  have l: "decodeDeferred_line sample_env ''Px:[1]'' ?d = (None, ?d')"
    by (simp add: decodeDeferred_line_def sample_eval deferred_resolve_def resolve_def)
  have r: "run_lines sample_env ?d [''Px:[1]''] = (None, ?d')"
    by (simp add: l)
  have i: "decodeInitial sample_env (new_decoder ()) [line_promise_nan, ''Px:[1]'']
             = Inr (False, VPromise 0, ?d, [''Px:[1]''])"
    by (simp add: decodeInitial_def new_decoder_def sample_eval line_promise_nan_def fun_eq_iff)
  have ne: "[] \<notin> set [''Px:[1]'']" by simp
  have d: "decode sample_env () [line_promise_nan, ''Px:[1]'']
             = Inr \<lparr>dvalue = VPromise 0, drain = Some (settle_done (None, ?d'))\<rparr>"
    using decode_run [OF i ne] by (simp only: r)
  have f: "decodeDeferred sample_env ?d [''Px:[1]''] = Some (None, ?d')"
    using decodeDeferred_run [OF ne, of sample_env ?d] by (simp only: r)
  have p: "observed_placeholder (decode sample_env () [line_promise_nan, ''Px:[1]'']) NaN
             = Some (Fulfilled (VNumber 1))"
    by (simp add: d observe_eval)
  have o: "observed_done_deferred (decode sample_env () [line_promise_nan, ''Px:[1]''])
             = Some (Fulfilled ())"
    by (simp add: d observe_eval)
  show ?thesis using n f p o by blast
qed

text \<open>
  C10, as amended. A settlement line with a valid marker whose id field (the text between
  the marker and the colon) is not a number, so that \<open>Number\<close> gives \<open>NaN\<close>, is looked up
  under the key of \<open>NaN\<close>. When no placeholder is registered under that key,
  \<open>decodeDeferred\<close> throws the lookup error "Deferred ID NaN not found in stream", not a
  syntax error, whatever follows the line; the payload is not even parsed. When a
  placeholder is registered under that key, the line is handled like any other: its
  payload is parsed and unflattened and, when both succeed, the placeholder is resolved
  or rejected with the value, according to the marker.
\<close>

theorem nan_id_not_found:
  assumes "line \<noteq> []"
    and "take 1 line = TYPE_PROMISE env \<or> take 1 line = TYPE_ERROR env"
    and "Number env (slice line 1 (indexOf line CHR '':'')) = NaN"
  shows "(map_of (deferred dec) NaN = None \<longrightarrow>
            decodeDeferred env dec (line # rest) = Some (Some (NotFound NaN), dec)
            \<and> decodeDeferred env dec (line # rest) \<noteq> Some (Some SyntaxError, dec))
     \<and> (map_of (deferred dec) NaN = Some d
          \<and> JSON_parse env (slice_from line (indexOf line CHR '':'' + 1)) = Some j
          \<and> unflatten env j dec = (Inr v, dec1) \<longrightarrow>
            decodeDeferred_line env line dec =
              (None, if take 1 line = TYPE_PROMISE env then deferred_resolve d v dec1
                     else deferred_reject d (Thrown v) dec1))"
proof -
  have a: "decodeDeferred env dec (line # rest) = Some (Some (NotFound NaN), dec)"
    if "map_of (deferred dec) NaN = None"
    using assms that line_unknown_id [of line env dec] by (simp add: decodeDeferred_Cons)
  have b: "decodeDeferred_line env line dec =
             (None, if take 1 line = TYPE_PROMISE env then deferred_resolve d v dec1
                    else deferred_reject d (Thrown v) dec1)"
    if "map_of (deferred dec) NaN = Some d"
      and "JSON_parse env (slice_from line (indexOf line CHR '':'' + 1)) = Some j"
      and "unflatten env j dec = (Inr v, dec1)"
    using assms(2,3) that by (auto simp: decodeDeferred_line_def Let_def)
  show ?thesis using a b by simp
qed

theorem nan_id_not_found_witness:
  "take 1 ''Ex:[1]'' = TYPE_ERROR sample_env
   \<and> Number sample_env (slice ''Ex:[1]'' 1 (indexOf ''Ex:[1]'' CHR '':'')) = NaN
   \<and> decodeDeferred sample_env (new_decoder ()) [''Ex:[1]'', ''P0:[1]'']
       = Some (Some (NotFound NaN), new_decoder ())
   \<and> decodeDeferred_line sample_env ''Ex:[1]''
         \<lparr>store = (), deferred = [(NaN, 0)], heap = (\<lambda>a. Pending)\<rparr>
       = (None, \<lparr>store = (), deferred = [(NaN, 0)],
                 heap = (\<lambda>a. Pending)(0 := Rejected (Thrown (VNumber 1)))\<rparr>)"
proof -
  let ?d = "\<lparr>store = (), deferred = [(NaN, 0)], heap = (\<lambda>a. Pending)\<rparr> :: (int, unit, val) decoder"
  have 1: "''Ex:[1]'' \<noteq> []" by simp
  have 2: "take 1 ''Ex:[1]'' = TYPE_PROMISE sample_env \<or> take 1 ''Ex:[1]'' = TYPE_ERROR sample_env"
    by (simp add: sample_env_simps)
  have 3: "Number sample_env (slice ''Ex:[1]'' 1 (indexOf ''Ex:[1]'' CHR '':'')) = NaN"
    by (simp add: sample_eval)
  have 4: "map_of (deferred (new_decoder () :: (int, unit, val) decoder)) NaN = None"
    by (simp add: new_decoder_def)
  have 5: "map_of (deferred ?d) NaN = Some 0
           \<and> JSON_parse sample_env (slice_from ''Ex:[1]'' (indexOf ''Ex:[1]'' CHR '':'' + 1))
               = Some (JArr [JNum 1])
           \<and> unflatten sample_env (JArr [JNum 1]) ?d = (Inr (VNumber 1), ?d)"
    by (simp add: sample_eval)
  have 6: "take 1 ''Ex:[1]'' \<noteq> TYPE_PROMISE sample_env" by (simp add: sample_env_simps)
  have 7: "take 1 ''Ex:[1]'' = TYPE_ERROR sample_env" by (simp add: sample_env_simps)
  have 8: "deferred_reject 0 (Thrown (VNumber 1)) ?d
             = \<lparr>store = (), deferred = [(NaN, 0)],
                heap = (\<lambda>a. Pending)(0 := Rejected (Thrown (VNumber 1)))\<rparr>"
    by (simp add: deferred_reject_def reject_def)
  have a: "decodeDeferred sample_env (new_decoder ()) [''Ex:[1]'', ''P0:[1]'']
             = Some (Some (NotFound NaN), new_decoder ())"
    using nan_id_not_found [OF 1 2 3, where dec = "new_decoder ()" and rest = "[''P0:[1]'']"] 4
    by blast
  have b: "decodeDeferred_line sample_env ''Ex:[1]'' ?d
             = (None, deferred_reject 0 (Thrown (VNumber 1)) ?d)"
    using nan_id_not_found [OF 1 2 3, where dec = ?d and d = 0 and j = "JArr [JNum 1]"
        and v = "VNumber 1" and ?dec1.0 = ?d] 5 6
    by simp
  show ?thesis using 7 3 a b [unfolded 8] by blast
qed


subsection \<open>The failure path\<close>

lemma reject_idem: "reject (reject q r) r = reject q r"
  by (cases q) (simp_all add: reject_def)

lemma fold_reject_heap:
  "heap (fold (\<lambda>a d. deferred_reject a r d) as dec) a =
     (if a \<in> set as then reject (heap dec a) r else heap dec a)"
  by (induction as arbitrary: dec) (auto simp: deferred_reject_def reject_idem)

lemma fold_reject_deferred:
  "deferred (fold (\<lambda>a d. deferred_reject a r d) as dec) = deferred dec"
  by (induction as arbitrary: dec) (auto simp: deferred_reject_def)

lemma reject_all_heap:
  "heap (reject_all r dec) a =
     (if a \<in> set (Object_values (deferred dec)) then reject (heap dec a) r else heap dec a)"
  by (simp add: reject_all_def fold_reject_heap)

lemma reject_all_deferred: "deferred (reject_all r dec) = deferred dec"
  by (simp add: reject_all_def fold_reject_deferred)

lemma Object_values_member: "map_of reg k = Some a \<Longrightarrow> a \<in> set (Object_values reg)"
  by (force simp: Object_values_def dest: map_of_SomeD)

lemma reject_all_placeholder:
  "placeholder dec k = Some q \<Longrightarrow> placeholder (reject_all r dec) k = Some (reject q r)"
  by (auto simp: placeholder_def reject_all_heap reject_all_deferred Object_values_member)

lemma decode_after_prefix:
  assumes "decodeInitial env (new_decoder p) reader = Inr (False, v, dec, pre @ rest)"
    and "[] \<notin> set pre" and "run_lines env dec pre = (None, dec')"
  shows "decode env p reader = Inr \<lparr>dvalue = v, drain = map_option settle_done (decodeDeferred env dec' rest)\<rparr>"
  using assms by (simp add: decode_def decodeDeferred_after)

text \<open>
  C3 (the code does not do all of what the claim says). A settlement frame whose id is
  absent from the registry makes \<open>decodeDeferred\<close> throw the lookup error; the handler
  of \<open>.catch\<close> then rejects every placeholder of the registry that is still pending
  with that error, and rejects the \<open>Deferred\<close> named \<open>done\<close> with it. But the
  promise that \<open>.catch\<close> returns is fulfilled, and the \<open>done\<close> that \<open>decode\<close> hands
  to its caller is built from that promise: it adopts \<open>reader.closed\<close> and is not
  rejected with the error.
\<close>

theorem unknown_id_failure_path:
  assumes "decodeInitial env (new_decoder p) reader = Inr (False, v, dec, pre @ line # rest)"
    and "[] \<notin> set pre" and "run_lines env dec pre = (None, dec')"
    and "line \<noteq> []" and "take 1 line = TYPE_PROMISE env \<or> take 1 line = TYPE_ERROR env"
    and "Number env (slice line 1 (indexOf line CHR '':'')) = deferredId"
    and "map_of (deferred dec') deferredId = None"
  shows "decodeDeferred env dec (pre @ line # rest) = Some (Some (NotFound deferredId), dec')
     \<and> observed_done_deferred (decode env p reader) = Some (Rejected (NotFound deferredId))
     \<and> (placeholder dec' k = Some Pending \<longrightarrow>
          observed_placeholder (decode env p reader) k = Some (Rejected (NotFound deferredId)))
     \<and> observed_done (decode env p reader) = Some Adopts_reader_closed"
proof -
  have thrown: "decodeDeferred env dec' (line # rest) = Some (Some (NotFound deferredId), dec')"
    using assms(4-7) line_unknown_id [of line env dec'] by (simp add: decodeDeferred_Cons)
  then have all: "decodeDeferred env dec (pre @ line # rest) = Some (Some (NotFound deferredId), dec')"
    using assms(2,3) by (simp add: decodeDeferred_after)
  have res: "decode env p reader =
      Inr \<lparr>dvalue = v, drain = Some (settle_done (Some (NotFound deferredId), dec'))\<rparr>"
    using decode_after_prefix [OF assms(1-3)] thrown by simp
  have "placeholder (reject_all (NotFound deferredId) dec') k = Some (Rejected (NotFound deferredId))"
    if "placeholder dec' k = Some Pending"
    using reject_all_placeholder [OF that, of "NotFound deferredId"] by (simp add: reject_def)
  then show ?thesis
    using all
    by (simp add: res observed_done_deferred_def observed_placeholder_def observed_done_def
        settle_done_def returned_done_def then_reader_closed_def reject_def)
qed

theorem unknown_id_failure_path_witness:
  "decodeDeferred sample_env \<lparr>store = (), deferred = [(Num 0, 0)], heap = (\<lambda>a. Pending)(0 := Pending)\<rparr> [''P5:[1]'']
     = Some (Some (NotFound (Num 5)), \<lparr>store = (), deferred = [(Num 0, 0)], heap = (\<lambda>a. Pending)(0 := Pending)\<rparr>)
   \<and> observed_done_deferred (decode sample_env () [line_promise0, ''P5:[1]'']) = Some (Rejected (NotFound (Num 5)))
   \<and> observed_placeholder (decode sample_env () [line_promise0, ''P5:[1]'']) (Num 0) = Some (Rejected (NotFound (Num 5)))
   \<and> observed_done (decode sample_env () [line_promise0, ''P5:[1]'']) = Some Adopts_reader_closed"
proof -
  let ?d = "\<lparr>store = (), deferred = [(Num 0, 0)], heap = (\<lambda>a. Pending)(0 := Pending)\<rparr> :: (int, unit, val) decoder"
  have 1: "decodeInitial sample_env (new_decoder ()) [line_promise0, ''P5:[1]'']
             = Inr (False, VPromise 0, ?d, [] @ ''P5:[1]'' # [])"
    using sample_initial [of "[''P5:[1]'']"] by simp
  have 2: "[] \<notin> set ([] :: string list)" by simp
  have 3: "run_lines sample_env ?d [] = (None, ?d)" by simp
  have 4: "''P5:[1]'' \<noteq> []" by simp
  have 5: "take 1 ''P5:[1]'' = TYPE_PROMISE sample_env \<or> take 1 ''P5:[1]'' = TYPE_ERROR sample_env"
    by (simp add: sample_env_simps)
  have 6: "Number sample_env (slice ''P5:[1]'' 1 (indexOf ''P5:[1]'' CHR '':'')) = Num 5"
    by (simp add: sample_eval)
  have 7: "map_of (deferred ?d) (Num 5) = None" by simp
  have 8: "placeholder ?d (Num 0) = Some Pending" by (simp add: placeholder_def)
  from unknown_id_failure_path [OF 1 2 3 4 5 6 7, of "Num 0"] 8 show ?thesis by simp
qed

subsection \<open>The end of the stream\<close>

text \<open>
  C2 fails as stated: the stream \<open>[["P",0]]\<close> closes while the placeholder of id 0 is
  pending; the placeholder is not rejected and the completion signal is resolved.
\<close>

theorem close_with_pending_counterexample:
  "observed_placeholder (decode sample_env () [line_promise0]) (Num 0) = Some Pending
   \<and> observed_done_deferred (decode sample_env () [line_promise0]) = Some (Fulfilled ())
   \<and> observed_done (decode sample_env () [line_promise0]) = Some Adopts_reader_closed"
  by (simp add: decode_run [OF sample_initial] observe_eval)

text \<open>
  C2, as amended. When the stream closes after settlement lines none of which is empty
  and none of which throws, \<open>decodeDeferred\<close> returns, \<open>done\<close> is resolved and the
  \<open>done\<close> handed to the caller adopts \<open>reader.closed\<close>, whatever the registry holds.
  The close itself rejects no placeholder: each placeholder is in the state in which the
  lines left it, so one that is still pending when the stream closes stays pending.
\<close>

theorem close_resolves_done:
  assumes "decodeInitial env (new_decoder p) reader = Inr (False, v, dec, lines)"
    and "[] \<notin> set lines"
    and "run_lines env dec lines = (None, dec')"
  shows "decodeDeferred env dec lines = Some (None, dec')
     \<and> decode env p reader =
           Inr \<lparr>dvalue = v,
                drain = Some \<lparr>final = dec', done_deferred = Fulfilled (), donePromise = Fulfilled ()\<rparr>\<rparr>
     \<and> observed_placeholder (decode env p reader) k = placeholder dec' k
     \<and> observed_done_deferred (decode env p reader) = Some (Fulfilled ())
     \<and> observed_done (decode env p reader) = Some Adopts_reader_closed"
proof -
  have r: "decodeDeferred env dec lines = Some (None, dec')"
    using decodeDeferred_run [OF assms(2), of env dec] by (simp only: assms(3))
  have d: "decode env p reader =
      Inr \<lparr>dvalue = v,
           drain = Some \<lparr>final = dec', done_deferred = Fulfilled (), donePromise = Fulfilled ()\<rparr>\<rparr>"
    using assms(1) r by (simp add: decode_def settle_done_def resolve_def)
  show ?thesis
    using r
    by (simp add: d observed_placeholder_def observed_done_def observed_done_deferred_def
        returned_done_def then_reader_closed_def)
qed

theorem close_resolves_done_witness:
  "decodeDeferred sample_env \<lparr>store = (), deferred = [(Num 0, 0)], heap = (\<lambda>a. Pending)(0 := Pending)\<rparr>
       [line_resolve0_promise1]
     = Some (None, \<lparr>store = (), deferred = [(Num 1, 1), (Num 0, 0)],
                    heap = (\<lambda>a. Pending)(0 := Fulfilled (VPromise 1), 1 := Pending)\<rparr>)
   \<and> observed_placeholder (decode sample_env () [line_promise0, line_resolve0_promise1]) (Num 0)
       = Some (Fulfilled (VPromise 1))
   \<and> observed_placeholder (decode sample_env () [line_promise0, line_resolve0_promise1]) (Num 1)
       = Some Pending
   \<and> observed_done_deferred (decode sample_env () [line_promise0, line_resolve0_promise1])
       = Some (Fulfilled ())
   \<and> observed_done (decode sample_env () [line_promise0, line_resolve0_promise1])
       = Some Adopts_reader_closed"
proof -
  let ?d = "\<lparr>store = (), deferred = [(Num 0, 0)], heap = (\<lambda>a. Pending)(0 := Pending)\<rparr> :: (int, unit, val) decoder"
  let ?d' = "\<lparr>store = (), deferred = [(Num 1, 1), (Num 0, 0)],
              heap = (\<lambda>a. Pending)(0 := Fulfilled (VPromise 1), 1 := Pending)\<rparr> :: (int, unit, val) decoder"
  let ?r = "[line_promise0, line_resolve0_promise1]"
  have 1: "decodeInitial sample_env (new_decoder ()) ?r = Inr (False, VPromise 0, ?d, [line_resolve0_promise1])"
    by (rule sample_initial)
  have 2: "[] \<notin> set [line_resolve0_promise1]" by (simp add: line_resolve0_promise1_def)
  have l: "decodeDeferred_line sample_env line_resolve0_promise1 ?d = (None, ?d')"
    by (simp add: decodeDeferred_line_def line_resolve0_promise1_def sample_eval
        deferred_resolve_def resolve_def fun_upd_twist)
  have 3: "run_lines sample_env ?d [line_resolve0_promise1] = (None, ?d')"
    by (simp add: l)
  have 4: "placeholder ?d' (Num 0) = Some (Fulfilled (VPromise 1))" by (simp add: placeholder_def)
  have 5: "placeholder ?d' (Num 1) = Some Pending" by (simp add: placeholder_def)
  from close_resolves_done [OF 1 2 3, of "Num 0"]
  have a: "decodeDeferred sample_env ?d [line_resolve0_promise1] = Some (None, ?d')"
    and b: "observed_placeholder (decode sample_env () ?r) (Num 0) = placeholder ?d' (Num 0)"
    and c: "observed_done_deferred (decode sample_env () ?r) = Some (Fulfilled ())"
    and e: "observed_done (decode sample_env () ?r) = Some Adopts_reader_closed"
    by blast+
  from close_resolves_done [OF 1 2 3, of "Num 1"]
  have b': "observed_placeholder (decode sample_env () ?r) (Num 1) = placeholder ?d' (Num 1)"
    by blast
  show ?thesis using a b [unfolded 4] b' [unfolded 5] c e by blast
qed

subsection \<open>A second settlement of the same id\<close>

lemma settled_resolve_noop: "heap dec d \<noteq> Pending \<Longrightarrow> deferred_resolve d v dec = dec"
  by (cases "heap dec d") (simp_all add: deferred_resolve_def resolve_def fun_upd_idem)

lemma settled_reject_noop: "heap dec d \<noteq> Pending \<Longrightarrow> deferred_reject d r dec = dec"
  by (cases "heap dec d") (simp_all add: deferred_reject_def reject_def fun_upd_idem)

text \<open>
  C4 fails as stated: after \<open>P0:[1]\<close> the frame \<open>P0:[2]\<close> settles id 0 a second time;
  decoding goes on to the end of the stream, the completion signal is resolved, and
  the placeholder keeps the value 1.
\<close>

theorem resettle_counterexample:
  "observed_done_deferred (decode sample_env () [line_promise0, ''P0:[1]'', ''P0:[2]'']) = Some (Fulfilled ())
   \<and> observed_placeholder (decode sample_env () [line_promise0, ''P0:[1]'', ''P0:[2]'']) (Num 0)
       = Some (Fulfilled (VNumber 1))"
  by (simp add: decode_run [OF sample_initial] sample_line_P0 sample_line_P0_2 observe_eval)

text \<open>
  C4, as amended. The registry keeps the entry of a settled placeholder, so a settlement
  frame for an id that an earlier frame settled is not an error: its payload is parsed
  and unflattened, the placeholder keeps its first settlement (a settled \<open>Deferred\<close>
  ignores \<open>resolve\<close> and \<open>reject\<close>), and the loop goes on to the next line.
\<close>

theorem resettle_is_ignored:
  assumes "take 1 line = TYPE_PROMISE env \<or> take 1 line = TYPE_ERROR env"
    and "map_of (deferred dec) (Number env (slice line 1 (indexOf line CHR '':''))) = Some d"
    and "JSON_parse env (slice_from line (indexOf line CHR '':'' + 1)) = Some jsonLine"
    and "unflatten env jsonLine dec = (Inr v, dec')"
    and "heap dec' d \<noteq> Pending"
  shows "decodeDeferred_line env line dec = (None, dec')"
proof (cases "take 1 line = TYPE_PROMISE env")
  case True
  then show ?thesis
    using assms(2-4) settled_resolve_noop [OF assms(5)]
    by (simp add: decodeDeferred_line_def Let_def)
next
  case False
  with assms(1) have "take 1 line = TYPE_ERROR env" by simp
  with False show ?thesis
    using assms(2-4) settled_reject_noop [OF assms(5)]
    by (simp add: decodeDeferred_line_def Let_def)
qed


theorem resettle_is_ignored_witness:
  "decodeDeferred_line sample_env ''P0:[2]''
     \<lparr>store = (), deferred = [(Num 0, 0)], heap = (\<lambda>a. Pending)(0 := Fulfilled (VNumber 1))\<rparr>
   = (None, \<lparr>store = (), deferred = [(Num 0, 0)], heap = (\<lambda>a. Pending)(0 := Fulfilled (VNumber 1))\<rparr>)"
proof -
  let ?d = "\<lparr>store = (), deferred = [(Num 0, 0)], heap = (\<lambda>a. Pending)(0 := Fulfilled (VNumber 1))\<rparr> :: (int, unit, val) decoder"
  have 1: "take 1 ''P0:[2]'' = TYPE_PROMISE sample_env \<or> take 1 ''P0:[2]'' = TYPE_ERROR sample_env"
    by (simp add: sample_env_simps)
  have 2: "map_of (deferred ?d) (Number sample_env (slice ''P0:[2]'' 1 (indexOf ''P0:[2]'' CHR '':''))) = Some 0"
    by (simp add: sample_eval)
  have 3: "JSON_parse sample_env (slice_from ''P0:[2]'' (indexOf ''P0:[2]'' CHR '':'' + 1)) = Some (JArr [JNum 2])"
    by (simp add: sample_eval)
  have 4: "unflatten sample_env (JArr [JNum 2]) ?d = (Inr (VNumber 2), ?d)"
    by (simp add: sample_eval)
  have 5: "heap ?d 0 \<noteq> Pending" by simp
  show ?thesis by (rule resettle_is_ignored [OF 1 2 3 4 5])
qed

section \<open>Properties of the encoder\<close>

subsection \<open>The handlers\<close>

lemma array_slice_drop: "0 \<le> start \<Longrightarrow> array_slice xs start = drop (nat start) xs"
  by (auto simp: array_slice_def Let_def min_def)

lemma normalized_eq:
  "(if \<not> truthy r \<or> \<not> typeof_object r \<or> \<not> instanceof_Error r
    then VError ''An unknown error occurred'' else r) = normalized r"
  by (cases r) (simp_all add: normalized_def)

lemma on_resolved_rule:
  "- 1 \<le> lastSentIndex st \<Longrightarrow>
     on_resolved env d v st = settlement_frame env (TYPE_PROMISE env) d v st"
  by (simp add: on_resolved_def settlement_frame_def enqueue_def array_slice_drop Let_def
      split: prod.splits sum.splits ref_id.splits)

lemma on_rejected_rule:
  "- 1 \<le> lastSentIndex st \<Longrightarrow>
     on_rejected env d r st = settlement_frame env (TYPE_ERROR env) d (normalized r) st"
  unfolding on_rejected_def normalized_eq
  by (simp add: settlement_frame_def enqueue_def array_slice_drop Let_def
      split: prod.splits sum.splits ref_id.splits)


subsection \<open>The settlement loop\<close>

lemma loop_closed:
  "Object_keys (edeferred (encoder st)) = [] \<Longrightarrow> settle_loop env sched st = Some (st, Closed)"
  by (subst settle_loop.simps) simp

lemma settle_signal: "signal (snd (settle env d s st)) = signal st"
  by (simp add: settle_def on_resolved_def on_rejected_def delete_deferred_def enqueue_def Let_def
      split: settlement.splits prod.splits sum.splits ref_id.splits)

lemma race_chains_snd:
  "snd (race_chains env fl ((k, s) # kss) st) =
     (if k \<in> set fl then snd (race_chains env (removeAll k fl) kss (snd (settle env k s st)))
      else snd (race_chains env fl kss st))"
  by (simp split: prod.splits)

lemma race_chains_signal: "signal (snd (race_chains env fl kss st)) = signal st"
proof (induction kss arbitrary: fl st)
  case Nil
  show ?case by simp
next
  case (Cons ks kss)
  obtain k s where ks: "ks = (k, s)" by (cases ks)
  show ?case
    unfolding ks race_chains_snd by (simp add: Cons.IH settle_signal)
qed

lemma race_chains_invariant:
  assumes step: "\<And>d s st. I st \<Longrightarrow> s \<in> S \<Longrightarrow> I (snd (settle env d s st))"
  shows "I st \<Longrightarrow> snd ` set kss \<subseteq> S \<Longrightarrow> I (snd (race_chains env fl kss st))"
proof (induction kss arbitrary: fl st)
  case Nil
  then show ?case by simp
next
  case (Cons ks kss)
  obtain k s where ks: "ks = (k, s)" by (cases ks)
  have s: "s \<in> S" and rest: "snd ` set kss \<subseteq> S" using Cons.prems(2) ks by auto
  have 1: "I (snd (race_chains env (removeAll k fl) kss (snd (settle env k s st))))"
    using Cons.IH [OF step [OF Cons.prems(1) s] rest] .
  have 2: "I (snd (race_chains env fl kss st))"
    using Cons.IH [OF Cons.prems(1) rest] .
  show ?case
    unfolding ks race_chains_snd using 1 2 by simp
qed

lemma race_chains_fst:
  "fst (race_chains env fl ((k, s) # kss) st) =
     (if k \<in> set fl
      then fst (settle env k s st) # fst (race_chains env (removeAll k fl) kss (snd (settle env k s st)))
      else fst (race_chains env fl kss st))"
  by (simp split: prod.splits)

lemma race_chains_quiet:
  assumes step: "\<And>d s st. I st \<Longrightarrow> s \<in> S \<Longrightarrow> I (snd (settle env d s st))"
    and quiet: "\<And>d s st. I st \<Longrightarrow> s \<in> S \<Longrightarrow> fst (settle env d s st) = None"
  shows "I st \<Longrightarrow> snd ` set kss \<subseteq> S \<Longrightarrow> set (fst (race_chains env fl kss st)) \<subseteq> {None}"
proof (induction kss arbitrary: fl st)
  case Nil
  then show ?case by simp
next
  case (Cons ks kss)
  obtain k s where ks: "ks = (k, s)" by (cases ks)
  have s: "s \<in> S" and rest: "snd ` set kss \<subseteq> S" using Cons.prems(2) ks by auto
  have 0: "fst (settle env k s st) = None" using quiet [OF Cons.prems(1) s] .
  have 1: "set (fst (race_chains env (removeAll k fl) kss (snd (settle env k s st)))) \<subseteq> {None}"
    using Cons.IH [OF step [OF Cons.prems(1) s] rest] .
  have 2: "set (fst (race_chains env fl kss st)) \<subseteq> {None}"
    using Cons.IH [OF Cons.prems(1) rest] .
  show ?case
    unfolding ks race_chains_fst using 0 1 2 by simp
qed

lemma race_rejection_quiet: "set ts \<subseteq> {None} \<Longrightarrow> race_rejection ts = None"
  by (cases ts) (auto simp: race_rejection_def)

lemma cover_tail:
  "set (run_settlements sg (ev # rest)) \<subseteq> S \<Longrightarrow> set (run_settlements sg rest) \<subseteq> S"
  by (auto simp: run_settlements_def)

lemma cover_head:
  "set (run_settlements sg (ev # rest)) \<subseteq> S \<Longrightarrow> set (event_settlements ev) \<subseteq> S"
  by (auto simp: run_settlements_def)

lemma cover_abort:
  "set (run_settlements sg (Aborts r # rest)) \<subseteq> S \<Longrightarrow>
     set (run_settlements (Some (Aborted r)) rest) \<subseteq> S"
  by (auto simp: run_settlements_def)

lemma cover_fired:
  "set (run_settlements sg sched) \<subseteq> S \<Longrightarrow> raceSignal sg = Rejected_already r \<Longrightarrow> Rejects r \<in> S"
  by (auto simp: run_settlements_def raceSignal_def split: option.splits signal.splits)

text \<open>
  An invariant of the loop: a property of the state that the chain of every settlement
  of the run and the firing of the token preserve holds when the loop ends, however it
  ends. And when none of these chains throws, the stream is not errored.
\<close>

lemma settle_loop_invariant:
  assumes run: "settle_loop env sched st = Some res"
    and step: "\<And>d s st. I st \<Longrightarrow> s \<in> S \<Longrightarrow> I (snd (settle env d s st))"
    and quiet: "\<And>d s st. Q \<Longrightarrow> I st \<Longrightarrow> s \<in> S \<Longrightarrow> fst (settle env d s st) = None"
    and sig: "\<And>st r. I st \<Longrightarrow> I (st\<lparr>signal := Some (Aborted r)\<rparr>)"
    and start: "I st"
    and cover: "set (run_settlements (signal st) sched) \<subseteq> S"
  shows "I (fst res) \<and> (Q \<longrightarrow> (\<forall>x. snd res \<noteq> Errored x))"
proof -
  have "env = env \<longrightarrow> I st \<longrightarrow> set (run_settlements (signal st) sched) \<subseteq> S \<longrightarrow>
          I (fst res) \<and> (Q \<longrightarrow> (\<forall>x. snd res \<noteq> Errored x))"
  proof (rule settle_loop.raw_induct
        [where P = "\<lambda>env' sched st res. env' = env \<longrightarrow> I st \<longrightarrow>
                      set (run_settlements (signal st) sched) \<subseteq> S \<longrightarrow>
                      I (fst res) \<and> (Q \<longrightarrow> (\<forall>x. snd res \<noteq> Errored x))",
          OF _ run], goal_cases)
    case (1 loop env' sched st res)
    note ih = 1(1) and body0 = 1(2)
    let ?G = "I (fst res) \<and> (Q \<longrightarrow> (\<forall>x. snd res \<noteq> Errored x))"
    show ?case
    proof (intro impI)
      assume e: "env' = env" and i: "I st" and c: "set (run_settlements (signal st) sched) \<subseteq> S"
      note body = body0 [unfolded e]
      have rec: ?G
        if "loop env sched' st' = Some res" "I st'" "set (run_settlements (signal st') sched') \<subseteq> S"
        for sched' st'
        using ih [OF that(1)] that(2,3) by simp
      have chain: ?G
        if "(case settle env k s st of (None, st') \<Rightarrow> loop env sched' st'
             | (Some e, st') \<Rightarrow> Some (st', Errored e)) = Some res"
          and "s \<in> S" and "set (run_settlements (signal st) sched') \<subseteq> S" for k s sched'
      proof (cases "settle env k s st")
        case (Pair thrown st1)
        have i1: "I st1" using step [OF i that(2), of k] Pair by simp
        have s1: "signal st1 = signal st" using settle_signal [of env k s st] Pair by simp
        show ?thesis
        proof (cases thrown)
          case None
          with Pair that(1) have "loop env sched' st1 = Some res" by simp
          then show ?thesis using i1 that(3) by (intro rec [of sched' st1]) (simp_all add: s1)
        next
          case (Some x)
          with Pair that(1) have r: "res = (st1, Errored x)" by simp
          have "\<not> Q" using quiet [OF _ i that(2), of k] Pair Some by auto
          with i1 r show ?thesis by simp
        qed
      qed
      have chains: ?G
        if "(case race_chains env ks kss st of
               (ts, st') \<Rightarrow>
                 (case race_rejection ts of None \<Rightarrow> loop env sched' st'
                  | Some e \<Rightarrow> Some (st', Errored e))) = Some res"
          and "snd ` set kss \<subseteq> S" and "set (run_settlements (signal st) sched') \<subseteq> S"
        for ks kss sched'
      proof (cases "race_chains env ks kss st")
        case (Pair ts st1)
        have i1: "I st1"
          using race_chains_invariant [of I S env st kss ks, OF step i that(2)] Pair by simp
        have s1: "signal st1 = signal st" using race_chains_signal [of env ks kss st] Pair by simp
        show ?thesis
        proof (cases "race_rejection ts")
          case None
          with Pair that(1) have "loop env sched' st1 = Some res" by simp
          then show ?thesis using i1 that(3) by (intro rec [of sched' st1]) (simp_all add: s1)
        next
          case (Some x)
          with Pair that(1) have r: "res = (st1, Errored x)" by simp
          have "\<not> Q"
          proof
            assume Q
            have "set (fst (race_chains env ks kss st)) \<subseteq> {None}"
              by (rule race_chains_quiet [of I S env st kss ks, OF step quiet [OF \<open>Q\<close>] i that(2)])
            then have "race_rejection ts = None" using Pair by (simp add: race_rejection_quiet)
            with Some show False by simp
          qed
          with i1 r show ?thesis by simp
        qed
      qed
      have events: ?G
        if "(case sched of [] \<Rightarrow> Some (st, Waiting)
              | Settles k s # rest \<Rightarrow>
                  if k \<in> set ks
                  then (case settle env k s st of
                         (None, st') \<Rightarrow> loop env rest st'
                       | (Some e, st') \<Rightarrow> Some (st', Errored e))
                  else loop env rest st
              | Together kss # rest \<Rightarrow>
                  (case race_chains env ks kss st of
                     (ts, st') \<Rightarrow>
                       (case race_rejection ts of None \<Rightarrow> loop env rest st'
                        | Some e \<Rightarrow> Some (st', Errored e)))
              | Aborts r # rest \<Rightarrow> loop env rest (f r)) = Some res"
          and "\<And>r rest. sched = Aborts r # rest \<Longrightarrow>
                 I (f r) \<and> set (run_settlements (signal (f r)) rest) \<subseteq> S" for ks f
      proof (cases sched)
        case Nil
        with that(1) i show ?thesis by auto
      next
        case (Cons ev rest)
        have tl: "set (run_settlements (signal st) rest) \<subseteq> S"
          using c unfolding Cons by (rule cover_tail)
        have hd: "set (event_settlements ev) \<subseteq> S"
          using c unfolding Cons by (rule cover_head)
        show ?thesis
        proof (cases ev)
          case (Settles k s)
          have s: "s \<in> S" using hd Settles by simp
          show ?thesis
          proof (cases "k \<in> set ks")
            case True
            with that(1) Cons Settles show ?thesis
              by (intro chain [where k = k and s = s and sched' = rest, OF _ s tl]) simp
          next
            case False
            with that(1) Cons Settles have "loop env rest st = Some res" by simp
            then show ?thesis using i tl by (rule rec)
          qed
        next
          case (Together kss)
          have s: "snd ` set kss \<subseteq> S" using hd Together by simp
          from that(1) Cons Together show ?thesis
            by (intro chains [where ks = ks and kss = kss and sched' = rest, OF _ s tl]) simp
        next
          case (Aborts r)
          with that(1) Cons have l: "loop env rest (f r) = Some res" by simp
          from that(2) [of r rest] Cons Aborts
          have "I (f r)" "set (run_settlements (signal (f r)) rest) \<subseteq> S" by simp_all
          with l show ?thesis by (rule rec)
        qed
      qed
      show ?G
      proof (cases "Object_keys (edeferred (encoder st))")
        case Nil
        with body i show ?thesis by auto
      next
        case (Cons d ds)
        show ?thesis
        proof (cases "raceSignal (signal st)")
          case The_promise
          have a: "I st \<and> set (run_settlements (signal st) rest) \<subseteq> S" if "sched = Aborts r # rest" for r rest
            using i c cover_tail [of "signal st" "Aborts r" rest S] that by simp
          from body Cons The_promise show ?thesis
            by (intro events [where ks = "d # ds" and f = "\<lambda>r. st"]) (simp_all add: a)
        next
          case (Rejected_already r)
          have s: "snd ` set (map (\<lambda>k. (k, Rejects r)) (d # ds)) \<subseteq> S"
            using cover_fired [OF c Rejected_already] by auto
          from body Cons Rejected_already show ?thesis
            by (intro chains [where ks = "d # ds" and kss = "map (\<lambda>k. (k, Rejects r)) (d # ds)"
                  and sched' = sched, OF _ s c]) simp
        next
          case Race_with_abort
          have a: "I (st\<lparr>signal := Some (Aborted r)\<rparr>)
                   \<and> set (run_settlements (Some (Aborted r)) rest) \<subseteq> S"
            if "sched = Aborts r # rest" for r rest
            using sig [OF i, of r] cover_abort [of "signal st" r rest S] c that by simp
          from body Cons Race_with_abort show ?thesis
            by (intro events [where ks = "d # ds" and f = "\<lambda>r. st\<lparr>signal := Some (Aborted r)\<rparr>"])
               (simp_all add: a)
        qed
      qed
    qed
  qed
  with start cover show ?thesis by simp
qed

subsection \<open>No fragment is sent twice\<close>

lemma table_slots_length:
  "int (length (stringified enc)) \<le> index enc \<Longrightarrow> length (table_slots enc) = nat (index enc)"
  by (simp add: table_slots_def)

lemma frame_in_step:
  assumes c: "flatten_contract env"
    and i: "in_step st" and l: "lastSentIndex st + 1 = index (encoder st)"
    and f: "settlement_frame env m d v st = (None, st1)"
  shows "in_step st1 \<and> lastSentIndex st1 + 1 = index (encoder st1)"
proof -
  have le: "int (length (stringified (encoder st))) \<le> index (encoder st)"
    and w: "wire_slots (enqueued st) = table_slots (encoder st)"
    using i by (simp_all add: in_step_def)
  obtain r enc where fl: "flatten env v (encoder st) = (r, enc)" by (cases "flatten env v (encoder st)")
  have con: "case flatten env v (encoder st) of
           (Inl e, enc') \<Rightarrow> True
         | (Inr (Wrapped k), enc') \<Rightarrow>
             stringified enc' = stringified (encoder st) \<and> index enc' = index (encoder st)
             \<and> edeferred enc' = edeferred (encoder st)
         | (Inr (Plain i), enc') \<Rightarrow>
             if i < 0
             then stringified enc' = stringified (encoder st) \<and> index enc' = index (encoder st)
                  \<and> edeferred enc' = edeferred (encoder st)
             else (\<exists>new. stringified enc' = table_slots (encoder st) @ new)
                  \<and> index enc' = int (length (stringified enc'))"
    by (rule c [unfolded flatten_contract_def, rule_format, OF le])
  show ?thesis
  proof (cases r)
    case (Inl e)
    with f fl show ?thesis by (simp add: settlement_frame_def)
  next
    case (Inr rid)
    show ?thesis
    proof (cases rid)
      case (Wrapped k)
      with Inr fl con have same: "stringified enc = stringified (encoder st)" "index enc = index (encoder st)"
        by simp_all
      have st1: "st1 = \<lparr>encoder = enc\<lparr>index := index enc + 1\<rparr>, lastSentIndex = lastSentIndex st + 1,
                 enqueued = enqueued st @ [Settlement m d (Alias k)], signal = signal st\<rparr>"
        using f fl Inr Wrapped by (simp add: settlement_frame_def)
      have "replicate (nat (index (encoder st) + 1) - length (stringified (encoder st))) (None :: string option)
          = replicate (nat (index (encoder st)) - length (stringified (encoder st))) None @ [None]"
        using le by (simp add: nat_add_distrib Suc_diff_le flip: replicate_append_same)
      then show ?thesis
        using w le l by (simp add: st1 in_step_def wire_slots_def table_slots_def same)
    next
      case (Plain j)
      show ?thesis
      proof (cases "j < 0")
        case True
        with Inr Plain fl con have same: "stringified enc = stringified (encoder st)" "index enc = index (encoder st)"
          by simp_all
        have st1: "st1 = \<lparr>encoder = enc, lastSentIndex = lastSentIndex st,
                      enqueued = enqueued st @ [Settlement m d (Sentinel j)], signal = signal st\<rparr>"
          using f fl Inr Plain True by (simp add: settlement_frame_def)
        show ?thesis
          using w le l by (simp add: st1 in_step_def wire_slots_def table_slots_def same)
      next
        case False
        with Inr Plain fl con obtain new where
          new: "stringified enc = table_slots (encoder st) @ new"
          and idx: "index enc = int (length (stringified enc))"
          by auto
        have st1: "st1 = \<lparr>encoder = enc, lastSentIndex = int (length (stringified enc)) - 1,
                      enqueued = enqueued st @
                        [Settlement m d (Fragments (drop (nat (lastSentIndex st + 1)) (stringified enc)))],
                      signal = signal st\<rparr>"
          using f fl Inr Plain False by (simp add: settlement_frame_def)
        have "drop (nat (lastSentIndex st + 1)) (stringified enc) = new"
          using table_slots_length [OF le] l by (simp add: new)
        then show ?thesis
          using w by (simp add: st1 in_step_def wire_slots_def new idx table_slots_def)
      qed
    qed
  qed
qed

lemma delete_in_step:
  "in_step (delete_deferred d st) = in_step st"
  "lastSentIndex (delete_deferred d st) = lastSentIndex st"
  "index (encoder (delete_deferred d st)) = index (encoder st)"
  by (simp_all add: delete_deferred_def in_step_def table_slots_def)

lemma settle_in_step:
  assumes c: "flatten_contract env"
    and i: "in_step st \<and> lastSentIndex st + 1 = index (encoder st)"
    and s: "settle env d s st = (None, st1)"
  shows "in_step st1 \<and> lastSentIndex st1 + 1 = index (encoder st1)"
proof -
  have l: "- 1 \<le> lastSentIndex st" using i by (simp add: in_step_def)
  obtain st0 where st0: "st1 = delete_deferred d st0"
     and fr: "(\<exists>m v. settlement_frame env m d v st = (None, st0))"
    using s by (auto simp: settle_def on_resolved_rule [OF l] on_rejected_rule [OF l]
        split: settlement.splits prod.splits)
  then obtain m v where "settlement_frame env m d v st = (None, st0)" by blast
  from frame_in_step [OF c _ _ this] i show ?thesis
    by (simp add: st0 delete_in_step)
qed

lemma settle_quiet:
  "flatten env (flattened s) (encoder st) = (Inr rid, enc) \<Longrightarrow> fst (settle env d s st) = None"
  by (cases s; cases rid)
     (simp_all add: settle_def on_resolved_def on_rejected_def flattened_def Let_def)

lemma chain_in_step:
  assumes c: "flatten_contract env"
    and i: "in_step st \<and> lastSentIndex st + 1 = index (encoder st)"
    and q: "\<forall>enc. \<exists>rid enc'. flatten env (flattened s) enc = (Inr rid, enc')"
  shows "in_step (snd (settle env d s st))
     \<and> lastSentIndex (snd (settle env d s st)) + 1 = index (encoder (snd (settle env d s st)))"
proof -
  from q obtain rid enc where "flatten env (flattened s) (encoder st) = (Inr rid, enc)" by blast
  then have "fst (settle env d s st) = None" by (rule settle_quiet)
  then have "settle env d s st = (None, snd (settle env d s st))" by (simp add: prod_eq_iff)
  from settle_in_step [OF c i this] show ?thesis .
qed

lemma loop_in_step:
  assumes c: "flatten_contract env"
    and run: "settle_loop env sched st0 = Some (st, fin)"
    and i: "in_step st0" "lastSentIndex st0 + 1 = index (encoder st0)"
    and q: "\<forall>s \<in> set (run_settlements (signal st0) sched).
              \<forall>enc. \<exists>rid enc'. flatten env (flattened s) enc = (Inr rid, enc')"
  shows "in_step st \<and> (\<forall>x. fin \<noteq> Errored x)"
proof -
  let ?S = "{s. \<forall>enc. \<exists>rid enc'. flatten env (flattened s) enc = (Inr rid, enc')}"
  have "(in_step (fst (st, fin)) \<and> lastSentIndex (fst (st, fin)) + 1 = index (encoder (fst (st, fin))))
        \<and> (True \<longrightarrow> (\<forall>x. snd (st, fin) \<noteq> Errored x))"
  proof (rule settle_loop_invariant [OF run, where S = ?S])
    show "in_step (snd (settle env d s st))
          \<and> lastSentIndex (snd (settle env d s st)) + 1 = index (encoder (snd (settle env d s st)))"
      if "in_step st \<and> lastSentIndex st + 1 = index (encoder st)" "s \<in> ?S" for d s st
      using chain_in_step [OF c that(1), of s d] that(2) by simp
    show "fst (settle env d s st) = None"
      if "in_step st \<and> lastSentIndex st + 1 = index (encoder st)" "s \<in> ?S" for d s st
    proof -
      from that(2) obtain rid enc where "flatten env (flattened s) (encoder st) = (Inr rid, enc)"
        by blast
      then show ?thesis by (rule settle_quiet)
    qed
    show "in_step (st\<lparr>signal := Some (Aborted r)\<rparr>) \<and>
          lastSentIndex (st\<lparr>signal := Some (Aborted r)\<rparr>) + 1 = index (encoder (st\<lparr>signal := Some (Aborted r)\<rparr>))"
      if "in_step st \<and> lastSentIndex st + 1 = index (encoder st)" for st :: "'a state" and r
      using that by (simp add: in_step_def)
    show "in_step st0 \<and> lastSentIndex st0 + 1 = index (encoder st0)" using i by simp
    show "set (run_settlements (signal st0) sched) \<subseteq> ?S" using q by auto
  qed
  then show ?thesis by simp
qed

lemma on_resolved_fragments:
  "flatten env v (encoder st0) = (Inr (Plain i), enc) \<Longrightarrow> 0 \<le> i \<Longrightarrow>
     on_resolved env d v st0 =
       (None, \<lparr>encoder = enc, lastSentIndex = int (length (stringified enc)) - 1,
               enqueued = enqueued st0 @
                 [Settlement (TYPE_PROMISE env) d
                    (Fragments (array_slice (stringified enc) (lastSentIndex st0 + 1)))],
               signal = signal st0\<rparr>)"
  by (simp add: on_resolved_def enqueue_def Let_def)

lemma on_rejected_fragments:
  "flatten env (normalized r) (encoder st0) = (Inr (Plain i), enc) \<Longrightarrow> 0 \<le> i \<Longrightarrow>
     on_rejected env d r st0 =
       (None, \<lparr>encoder = enc, lastSentIndex = int (length (stringified enc)) - 1,
               enqueued = enqueued st0 @
                 [Settlement (TYPE_ERROR env) d
                    (Fragments (array_slice (stringified enc) (lastSentIndex st0 + 1)))],
               signal = signal st0\<rparr>)"
  unfolding on_rejected_def normalized_eq
  by (simp add: enqueue_def Let_def)

lemma slice_is_appended:
  assumes c: "flatten_contract env"
    and i: "in_step st0" "lastSentIndex st0 + 1 = index (encoder st0)"
    and f: "flatten env v (encoder st0) = (Inr (Plain i), enc)" "0 \<le> i"
  shows "stringified enc = table_slots (encoder st0) @ array_slice (stringified enc) (lastSentIndex st0 + 1)"
proof -
  have le: "int (length (stringified (encoder st0))) \<le> index (encoder st0)"
    using i by (simp add: in_step_def)
  from c [unfolded flatten_contract_def, rule_format, OF le, of v] f
  obtain new where new: "stringified enc = table_slots (encoder st0) @ new" by auto
  have "0 \<le> lastSentIndex st0 + 1" using le i(2) by simp
  then show ?thesis
    using table_slots_length [OF le] i(2) by (simp add: array_slice_drop new)
qed

text \<open>
  C6, as amended. A settlement frame whose payload is neither a sentinel nor a
  back-reference carries the slice of the table behind \<open>lastSentIndex\<close>, and
  \<open>lastSentIndex\<close> becomes the last index of the table; with a \<open>flatten\<close> that keeps
  its contract the slice is exactly what this \<open>flatten\<close> appended. In an encode in which
  \<open>flatten\<close> throws for none of the values that settle (the resolved values, the
  rejection reasons made errors, the reason of the token), the stream is errored only
  before its first chunk, and otherwise, when the run ends (the stream closes, or nothing
  more settles), the slots carried by its frames are, one by one and in order, the slots
  of the table up to the cursor: every index is sent once, the fragments sent are the
  fragments of the table, and the number of slots sent is the cursor. The slot that an
  alias frame consumes is a hole of the table and is counted as a slot.
\<close>

theorem no_retransmission:
  assumes c: "flatten_contract env"
    and run: "encode env plugins sig input sched = Some (st, fin)"
    and quiet: "\<forall>s \<in> set (run_settlements sig sched).
                  \<forall>enc. \<exists>rid enc'. flatten env (flattened s) enc = (Inr rid, enc')"
  shows "((\<forall>x. fin \<noteq> Errored x) \<longrightarrow>
            in_step st
            \<and> filter (\<lambda>x. x \<noteq> None) (wire_slots (enqueued st)) =
                filter (\<lambda>x. x \<noteq> None) (stringified (encoder st))
            \<and> length (wire_slots (enqueued st)) = nat (index (encoder st)))
     \<and> (fin = Errored x \<longrightarrow> enqueued st = [])
     \<and> (flatten env v (encoder st0) = (Inr (Plain i), enc) \<and> 0 \<le> i \<longrightarrow>
          snd (on_resolved env d v st0) =
            \<lparr>encoder = enc, lastSentIndex = int (length (stringified enc)) - 1,
             enqueued = enqueued st0 @
               [Settlement (TYPE_PROMISE env) d
                  (Fragments (array_slice (stringified enc) (lastSentIndex st0 + 1)))],
             signal = signal st0\<rparr>
          \<and> (in_step st0 \<and> lastSentIndex st0 + 1 = index (encoder st0) \<longrightarrow>
               stringified enc =
                 table_slots (encoder st0) @ array_slice (stringified enc) (lastSentIndex st0 + 1)))
     \<and> (flatten env (normalized r) (encoder st0) = (Inr (Plain i), enc) \<and> 0 \<le> i \<longrightarrow>
          snd (on_rejected env d r st0) =
            \<lparr>encoder = enc, lastSentIndex = int (length (stringified enc)) - 1,
             enqueued = enqueued st0 @
               [Settlement (TYPE_ERROR env) d
                  (Fragments (array_slice (stringified enc) (lastSentIndex st0 + 1)))],
             signal = signal st0\<rparr>
          \<and> (in_step st0 \<and> lastSentIndex st0 + 1 = index (encoder st0) \<longrightarrow>
               stringified enc =
                 table_slots (encoder st0) @ array_slice (stringified enc) (lastSentIndex st0 + 1)))"
proof -
  let ?new = "new_encoder plugins :: 'a encoder"
  let ?st = "\<lparr>encoder = ?new, lastSentIndex = 0, enqueued = [], signal = sig\<rparr>"
  obtain res enc0 where fl: "flatten env input ?new = (res, enc0)" by (cases "flatten env input ?new")
  have le: "int (length (stringified ?new)) \<le> index ?new" by (simp add: new_encoder_def)
  note con = c [unfolded flatten_contract_def, rule_format, OF le, of input, unfolded fl]
  have ends: "((\<forall>x. fin \<noteq> Errored x) \<longrightarrow> in_step st) \<and> (fin = Errored x \<longrightarrow> enqueued st = [])"
  proof (cases res)
    case (Inl e)
    with run fl show ?thesis by (auto simp: encode_def)
  next
    case (Inr rid)
    show ?thesis
    proof (cases rid)
      case (Wrapped k)
      with run fl Inr show ?thesis by (auto simp: encode_def)
    next
      case (Plain j)
      show ?thesis
      proof (cases "j < 0")
        case True
        with con Inr Plain have same: "stringified enc0 = []" "index enc0 = 0" "edeferred enc0 = []"
          by (simp_all add: new_encoder_def)
        let ?s1 = "(enqueue (First (Sentinel j)) ?st)\<lparr>encoder := enc0\<rparr>"
        have "settle_loop env sched ?s1 = Some (?s1, Closed)"
          by (rule loop_closed) (simp add: same Object_keys_def enqueue_def)
        moreover have "settle_loop env sched ?s1 = Some (st, fin)"
          using run fl Inr Plain True by (simp add: encode_def)
        ultimately have "st = ?s1" "fin = Closed" by simp_all
        then show ?thesis
          by (simp add: in_step_def wire_slots_def table_slots_def same enqueue_def)
      next
        case False
        with con Inr Plain have idx: "index enc0 = int (length (stringified enc0))" by simp
        let ?s1 = "(enqueue (First (Fragments (stringified enc0))) ?st)
                    \<lparr>encoder := enc0, lastSentIndex := int (length (stringified enc0)) - 1\<rparr>"
        have r1: "settle_loop env sched ?s1 = Some (st, fin)"
          using run fl Inr Plain False by (simp add: encode_def)
        have i1: "in_step ?s1" "lastSentIndex ?s1 + 1 = index (encoder ?s1)"
          by (simp_all add: in_step_def wire_slots_def table_slots_def idx enqueue_def)
        have q1: "\<forall>s \<in> set (run_settlements (signal ?s1) sched).
                    \<forall>enc. \<exists>rid enc'. flatten env (flattened s) enc = (Inr rid, enc')"
          using quiet by (simp add: enqueue_def)
        from loop_in_step [OF c r1 i1 q1] show ?thesis by simp
      qed
    qed
  qed
  have sent: "filter (\<lambda>x. x \<noteq> None) (wire_slots (enqueued st)) =
                filter (\<lambda>x. x \<noteq> None) (stringified (encoder st))
              \<and> length (wire_slots (enqueued st)) = nat (index (encoder st))" if "in_step st"
    using that table_slots_length [of "encoder st"] by (simp add: in_step_def table_slots_def)
  show ?thesis
    using ends sent
      on_resolved_fragments [of env v st0 i enc d] on_rejected_fragments [of env r st0 i enc d]
      slice_is_appended [OF c, of st0 v i enc] slice_is_appended [OF c, of st0 "normalized r" i enc]
    by simp
qed

subsection \<open>The first chunk\<close>

text \<open>
  C5. When the initial flatten gives a wrapped reference, \<open>start\<close> throws and the stream
  is errored; when it gives a negative sentinel, the one line with the sentinel is
  enqueued and, the flattener having registered no deferred value, the stream closes
  with no settlement frame; otherwise one line with the whole fragment table is enqueued
  and \<open>lastSentIndex\<close> is the last index of the table when the settlement loop starts.
\<close>

theorem encode_first_chunk:
  "(flatten env input (new_encoder plugins) = (Inr (Wrapped k), enc) \<longrightarrow>
      encode env plugins sig input sched =
        Some (\<lparr>encoder = enc, lastSentIndex = 0, enqueued = [], signal = sig\<rparr>,
              Errored (VError ''This should never happen'')))
   \<and> (flatten env input (new_encoder plugins) = (Inr (Plain i), enc) \<and> i < 0
        \<and> edeferred enc = [] \<longrightarrow>
      encode env plugins sig input sched =
        Some (\<lparr>encoder = enc, lastSentIndex = 0, enqueued = [First (Sentinel i)], signal = sig\<rparr>,
              Closed)
      \<and> frame_text env (First (Sentinel i)) = show_int i @ [CHR 0x0A])
   \<and> (flatten env input (new_encoder plugins) = (Inr (Plain i), enc) \<and> 0 \<le> i \<longrightarrow>
      encode env plugins sig input sched =
        settle_loop env sched
          \<lparr>encoder = enc, lastSentIndex = int (length (stringified enc)) - 1,
           enqueued = [First (Fragments (stringified enc))], signal = sig\<rparr>
      \<and> frame_text env (First (Fragments (stringified enc))) =
            ''['' @ join '','' (stringified enc) @ '']'' @ [CHR 0x0A])"
  by (auto simp: encode_def enqueue_def frame_text_def payload_text_def Object_keys_def
      intro!: loop_closed)

subsection \<open>Rejection frames\<close>

text \<open>\<open>lastSentIndex\<close> is never below \<open>-1\<close>.\<close>

lemma settle_lastSentIndex:
  assumes "- 1 \<le> lastSentIndex st"
  shows "- 1 \<le> lastSentIndex (snd (settle env d s st))"
proof -
  have fr: "- 1 \<le> lastSentIndex st0" if "settlement_frame env m d v st = (t, st0)" for m v t st0
    using that assms
    by (auto simp: settlement_frame_def split: prod.splits sum.splits ref_id.splits if_splits)
  show ?thesis
    by (cases s)
       (auto simp: settle_def on_resolved_rule [OF assms] on_rejected_rule [OF assms]
          delete_deferred_def split: prod.splits dest: fr)
qed

lemma encode_lastSentIndex:
  assumes run: "encode env plugins sig input sched = Some (st, fin)"
  shows "- 1 \<le> lastSentIndex st"
proof -
  have loop: "- 1 \<le> lastSentIndex st" if "settle_loop env sched st0 = Some (st, fin)" "- 1 \<le> lastSentIndex st0"
    for st0
  proof -
    have "- 1 \<le> lastSentIndex (fst (st, fin)) \<and> (False \<longrightarrow> (\<forall>x. snd (st, fin) \<noteq> Errored x))"
      by (rule settle_loop_invariant [OF that(1), where I = "\<lambda>s. - 1 \<le> lastSentIndex s" and S = UNIV])
         (use that(2) in \<open>auto intro: settle_lastSentIndex\<close>)
    then show ?thesis by simp
  qed
  obtain res enc0 where fl: "flatten env input (new_encoder plugins) = (res, enc0)"
    by (cases "flatten env input (new_encoder plugins)")
  show ?thesis
  proof (cases res)
    case (Inl e)
    with run fl show ?thesis by (auto simp: encode_def)
  next
    case (Inr rid)
    show ?thesis
    proof (cases rid)
      case (Wrapped k)
      with run fl Inr show ?thesis by (auto simp: encode_def)
    next
      case (Plain j)
      show ?thesis
      proof (cases "j < 0")
        case True
        with run fl Inr Plain show ?thesis
          by (intro loop [where ?st0.0 = "(enqueue (First (Sentinel j))
                \<lparr>encoder = new_encoder plugins, lastSentIndex = 0, enqueued = [], signal = sig\<rparr>)
                \<lparr>encoder := enc0\<rparr>"])
             (simp_all add: encode_def enqueue_def)
      next
        case False
        with run fl Inr Plain show ?thesis
          by (intro loop [where ?st0.0 = "(enqueue (First (Fragments (stringified enc0)))
                \<lparr>encoder = new_encoder plugins, lastSentIndex = 0, enqueued = [], signal = sig\<rparr>)
                \<lparr>encoder := enc0, lastSentIndex := int (length (stringified enc0)) - 1\<rparr>"])
             (simp_all add: encode_def enqueue_def)
      qed
    qed
  qed
qed

text \<open>
  C8. The rejection handler replaces a reason that is not an \<open>Error\<close> object by the
  error "An unknown error occurred", flattens the error, and emits the frame of the
  three-way payload rule with the error marker; the resolution handler emits the frame
  of the same rule with the resolution marker. (\<open>lastSentIndex\<close> is never below \<open>-1\<close>
  in a run.)
\<close>

theorem rejection_frame_rule:
  "- 1 \<le> lastSentIndex st \<Longrightarrow>
     on_rejected env d r st = settlement_frame env (TYPE_ERROR env) d (normalized r) st
     \<and> on_resolved env d v st = settlement_frame env (TYPE_PROMISE env) d v st
     \<and> normalized r = (if instanceof_Error r then r else VError ''An unknown error occurred'')"
  by (simp add: on_rejected_rule on_resolved_rule normalized_def)

subsection \<open>Cancellation\<close>










subsection \<open>Evaluating the sample encoder\<close>

declare show_nat.simps [simp del]

lemma show_nat_digit: "n < 10 \<Longrightarrow> show_nat n = [''0123456789'' ! n]"
  by (simp add: show_nat.simps)

lemma sample_encode_env_simps:
  "TYPE_PROMISE sample_encode_env = ''P''" "TYPE_ERROR sample_encode_env = ''E''"
  "TYPE_PREVIOUS_RESOLVED sample_encode_env = ''Z''" "flatten sample_encode_env = sample_flatten"
  by (simp_all add: sample_encode_env_def)

lemmas sample_flatten_eval = sample_encode_env_simps sample_flatten_def sample_write_def
  sample_fragments_def sample_registers_def table_slots_def new_encoder_def quoted_def show_int_def show_nat_digit
  fragment_promise0_def

lemma sample_flatten_promise:
  "flatten sample_encode_env (VPromise 1) (new_encoder []) =
     (Inr (Plain 0), \<lparr>edeferred = [(0, VPromise 1)], index = 1, indices = [(VPromise 1, 0)],
                       stringified = [Some fragment_promise0]\<rparr>)"
  by (simp add: sample_flatten_eval)

lemma sample_flatten_undefined:
  "flatten sample_encode_env VUndefined (new_encoder []) = (Inr (Plain (- 7)), new_encoder [])"
  by (simp add: sample_flatten_eval)

lemma sample_flatten_contract: "flatten_contract sample_encode_env"
  unfolding flatten_contract_def
proof (intro allI impI)
  fix v and enc :: "(val \<times> int) list encoder"
  assume le: "int (length (stringified enc)) \<le> index enc"
  have nn: "0 \<le> index enc" using le by simp
  have wr: "\<exists>enc' new. sample_write v enc = (Inr (Plain (index enc)), enc')
              \<and> stringified enc' = table_slots enc @ new
              \<and> index enc' = int (length (stringified enc'))" if "v \<noteq> VObject 0"
    using that table_slots_length [OF le] nn by (simp add: sample_write_def Let_def)
  have th: "\<exists>e enc'. sample_write v enc = (Inl e, enc')" if "v = VObject 0"
    using that by (simp add: sample_write_def Let_def)
  show "case flatten sample_encode_env v enc of
           (Inl e, enc') \<Rightarrow> True
         | (Inr (Wrapped k), enc') \<Rightarrow>
             stringified enc' = stringified enc \<and> index enc' = index enc
             \<and> edeferred enc' = edeferred enc
         | (Inr (Plain i), enc') \<Rightarrow>
             if i < 0
             then stringified enc' = stringified enc \<and> index enc' = index enc
                  \<and> edeferred enc' = edeferred enc
             else (\<exists>new. stringified enc' = table_slots enc @ new)
                  \<and> index enc' = int (length (stringified enc'))"
  proof (cases "v = VObject 0")
    case True
    from th [OF True] obtain e enc' where "sample_write v enc = (Inl e, enc')" by blast
    then show ?thesis
      by (auto simp: sample_encode_env_simps sample_flatten_def split: option.splits)
  next
    case False
    from wr [OF False] obtain enc' new where "sample_write v enc = (Inr (Plain (index enc)), enc')"
      "stringified enc' = table_slots enc @ new" "index enc' = int (length (stringified enc'))"
      by blast
    then show ?thesis
      using nn by (auto simp: sample_encode_env_simps sample_flatten_def split: option.splits)
  qed
qed

lemma loop_settles:
  "Object_keys (edeferred (encoder st)) = d # ds \<Longrightarrow> signal st = None \<or> signal st = Some Not_aborted \<Longrightarrow>
   k \<in> set (d # ds) \<Longrightarrow> settle env k s st = (None, st') \<Longrightarrow>
     settle_loop env (Settles k s # rest) st = settle_loop env rest st'"
  by (subst settle_loop.simps) (auto simp: raceSignal_def)

lemma sample_encode_promise:
  "encode sample_encode_env [] sig (VPromise 1) sched = settle_loop sample_encode_env sched (sample_state sig)"
  by (simp add: encode_def sample_flatten_eval enqueue_def sample_state_def)

lemma sample_settle_resolve:
  "settle sample_encode_env 0 (Resolves (VNumber 1)) (sample_state sig) =
     (None, \<lparr>encoder = \<lparr>edeferred = [], index = 2, indices = [(VNumber 1, 1), (VPromise 1, 0)],
                         stringified = [Some fragment_promise0, Some ''1'']\<rparr>,
             lastSentIndex = 1,
             enqueued = [First (Fragments [Some fragment_promise0]),
                         Settlement ''P'' 0 (Fragments [Some ''1''])],
             signal = sig\<rparr>)"
  by (simp add: settle_def on_resolved_def sample_state_def sample_flatten_eval delete_deferred_def
      enqueue_def array_slice_def Let_def)

lemma sample_run:
  "encode sample_encode_env [] None (VPromise 1) [Settles 0 (Resolves (VNumber 1))] =
     Some (\<lparr>encoder = \<lparr>edeferred = [], index = 2, indices = [(VNumber 1, 1), (VPromise 1, 0)],
                         stringified = [Some fragment_promise0, Some ''1'']\<rparr>,
             lastSentIndex = 1,
             enqueued = [First (Fragments [Some fragment_promise0]),
                         Settlement ''P'' 0 (Fragments [Some ''1''])],
             signal = None\<rparr>, Closed)"
proof -
  have k: "Object_keys (edeferred (encoder (sample_state None))) = [0]"
    by (simp add: sample_state_def Object_keys_def)
  show ?thesis
    unfolding sample_encode_promise
    by (subst loop_settles [OF k _ _ sample_settle_resolve])
       (simp_all add: sample_state_def loop_closed Object_keys_def)
qed

lemmas sample_two_eval = sample_flatten_eval fragment_array12_def fragment_promise1_def
  fragment_promise2_def sample_two_def

lemma sample_encode_array:
  "encode sample_encode_env [] sig (VObject 1) sched = settle_loop sample_encode_env sched (sample_two sig)"
  by (simp add: encode_def sample_two_eval enqueue_def)

lemma sample_two_keys: "Object_keys (edeferred (encoder (sample_two sig))) = [1, 2]"
  by (simp add: sample_two_def Object_keys_def)

lemma loop_together:
  "Object_keys (edeferred (encoder st)) = d # ds \<Longrightarrow> signal st = None \<or> signal st = Some Not_aborted \<Longrightarrow>
   race_chains env (d # ds) kss st = (ts, st') \<Longrightarrow> race_rejection ts = None \<Longrightarrow>
     settle_loop env (Together kss # rest) st = settle_loop env rest st'"
  by (subst settle_loop.simps) (auto simp: raceSignal_def)

lemma sample_chains_dropped:
  "race_chains sample_encode_env [1, 2] [(1, Resolves (VNumber 7)), (2, Resolves (VObject 0))] (sample_two None) =
     ([None, Some (VError ''Cannot encode function or unexpected type'')],
      \<lparr>encoder = \<lparr>edeferred = [], index = 7,
                  indices = [(VString ''f'', 5), (VObject 0, 4), (VNumber 7, 3), (VObject 1, 0)],
                  stringified = [Some fragment_array12, Some fragment_promise1, Some fragment_promise2,
                                 Some ''7'', None, Some (quoted ''f'')]\<rparr>,
       lastSentIndex = 3,
       enqueued = [First (Fragments [Some fragment_array12, Some fragment_promise1, Some fragment_promise2]),
                   Settlement ''P'' 1 (Fragments [Some ''7''])],
       signal = None\<rparr>)"
  by (simp add: settle_def on_resolved_def sample_two_eval delete_deferred_def
      enqueue_def array_slice_def Let_def)

lemma sample_chains_quiet:
  "race_chains sample_encode_env [1, 2] [(1, Resolves (VNumber 7)), (2, Resolves (VNumber 8))] (sample_two None) =
     ([None, None],
      \<lparr>encoder = \<lparr>edeferred = [], index = 5,
                  indices = [(VNumber 8, 4), (VNumber 7, 3), (VObject 1, 0)],
                  stringified = [Some fragment_array12, Some fragment_promise1, Some fragment_promise2,
                                 Some ''7'', Some ''8'']\<rparr>,
       lastSentIndex = 4,
       enqueued = [First (Fragments [Some fragment_array12, Some fragment_promise1, Some fragment_promise2]),
                   Settlement ''P'' 1 (Fragments [Some ''7'']),
                   Settlement ''P'' 2 (Fragments [Some ''8''])],
       signal = None\<rparr>)"
  by (simp add: settle_def on_resolved_def sample_two_eval delete_deferred_def
      enqueue_def array_slice_def Let_def)

lemma sample_dropped_run:
  "encode sample_encode_env [] None (VObject 1) (sample_together (VObject 0)) =
     Some (\<lparr>encoder = \<lparr>edeferred = [], index = 7,
                  indices = [(VString ''f'', 5), (VObject 0, 4), (VNumber 7, 3), (VObject 1, 0)],
                  stringified = [Some fragment_array12, Some fragment_promise1, Some fragment_promise2,
                                 Some ''7'', None, Some (quoted ''f'')]\<rparr>,
             lastSentIndex = 3,
             enqueued = [First (Fragments [Some fragment_array12, Some fragment_promise1, Some fragment_promise2]),
                         Settlement ''P'' 1 (Fragments [Some ''7''])],
             signal = None\<rparr>, Closed)"
proof -
  have s: "signal (sample_two None) = None \<or> signal (sample_two None) = Some Not_aborted"
    by (simp add: sample_two_def)
  have r: "race_rejection [None, Some (VError ''Cannot encode function or unexpected type'')] = None"
    by (simp add: race_rejection_def)
  show ?thesis
    unfolding sample_encode_array sample_together_def
    by (subst loop_together [OF sample_two_keys s sample_chains_dropped r])
       (simp add: loop_closed Object_keys_def)
qed

lemma sample_quiet_run:
  "encode sample_encode_env [] None (VObject 1) (sample_together (VNumber 8)) =
     Some (\<lparr>encoder = \<lparr>edeferred = [], index = 5,
                  indices = [(VNumber 8, 4), (VNumber 7, 3), (VObject 1, 0)],
                  stringified = [Some fragment_array12, Some fragment_promise1, Some fragment_promise2,
                                 Some ''7'', Some ''8'']\<rparr>,
             lastSentIndex = 4,
             enqueued = [First (Fragments [Some fragment_array12, Some fragment_promise1, Some fragment_promise2]),
                         Settlement ''P'' 1 (Fragments [Some ''7'']),
                         Settlement ''P'' 2 (Fragments [Some ''8''])],
             signal = None\<rparr>, Closed)"
proof -
  have s: "signal (sample_two None) = None \<or> signal (sample_two None) = Some Not_aborted"
    by (simp add: sample_two_def)
  have r: "race_rejection [None, None] = None"
    by (simp add: race_rejection_def)
  show ?thesis
    unfolding sample_encode_array sample_together_def
    by (subst loop_together [OF sample_two_keys s sample_chains_quiet r])
       (simp add: loop_closed Object_keys_def)
qed

theorem encode_first_chunk_witness:
  "encode broken_encode_env [] None (VObject 1) [] =
     Some (\<lparr>encoder = new_encoder [], lastSentIndex = 0, enqueued = [], signal = None\<rparr>,
           Errored (VError ''This should never happen''))
   \<and> encode sample_encode_env [] None VUndefined [] =
       Some (\<lparr>encoder = new_encoder [], lastSentIndex = 0, enqueued = [First (Sentinel (- 7))],
              signal = None\<rparr>, Closed)
   \<and> frame_text sample_encode_env (First (Sentinel (- 7))) = ''-7'' @ [CHR 0x0A]
   \<and> encode sample_encode_env [] None (VPromise 1) [] =
       settle_loop sample_encode_env [] (sample_state None)
   \<and> frame_text sample_encode_env (First (Fragments [Some fragment_promise0])) =
       ''['' @ fragment_promise0 @ '']'' @ [CHR 0x0A]"
proof -
  have 1: "flatten broken_encode_env (VObject 1) (new_encoder []) = (Inr (Wrapped 0), new_encoder [])"
    by (simp add: broken_encode_env_def)
  have 2: "flatten sample_encode_env VUndefined (new_encoder []) = (Inr (Plain (- 7)), new_encoder [])"
    "edeferred (new_encoder [] :: (val \<times> int) list encoder) = []"
    by (simp_all add: sample_flatten_eval)
  have 3: "flatten sample_encode_env (VPromise 1) (new_encoder []) = (Inr (Plain 0), encoder (sample_state None))"
    by (simp add: sample_flatten_eval sample_state_def)
  have s: "show_int (- 7) = ''-7''" by (simp add: show_int_def show_nat_digit)
  from encode_first_chunk [where env = broken_encode_env and input = "VObject 1" and plugins = "[]"
      and k = 0 and enc = "new_encoder []" and sig = None and sched = "[]"] 1
  have a: "encode broken_encode_env [] None (VObject 1) [] =
     Some (\<lparr>encoder = new_encoder [], lastSentIndex = 0, enqueued = [], signal = None\<rparr>,
           Errored (VError ''This should never happen''))"
    by blast
  from encode_first_chunk [where env = sample_encode_env and input = VUndefined and plugins = "[]"
      and i = "- 7" and enc = "new_encoder []" and sig = None and sched = "[]"] 2
  have b: "encode sample_encode_env [] None VUndefined [] =
       Some (\<lparr>encoder = new_encoder [], lastSentIndex = 0, enqueued = [First (Sentinel (- 7))],
              signal = None\<rparr>, Closed)"
    "frame_text sample_encode_env (First (Sentinel (- 7))) = show_int (- 7) @ [CHR 0x0A]"
    by simp_all
  from encode_first_chunk [where env = sample_encode_env and input = "VPromise 1" and plugins = "[]"
      and i = 0 and enc = "encoder (sample_state None)" and sig = None and sched = "[]"] 3
  have c: "encode sample_encode_env [] None (VPromise 1) [] =
        settle_loop sample_encode_env []
          \<lparr>encoder = encoder (sample_state None),
           lastSentIndex = int (length (stringified (encoder (sample_state None)))) - 1,
           enqueued = [First (Fragments (stringified (encoder (sample_state None))))], signal = None\<rparr>"
     "frame_text sample_encode_env (First (Fragments (stringified (encoder (sample_state None))))) =
            ''['' @ join '','' (stringified (encoder (sample_state None))) @ '']'' @ [CHR 0x0A]"
    by simp_all
  have d: "\<lparr>encoder = encoder (sample_state None),
           lastSentIndex = int (length (stringified (encoder (sample_state None)))) - 1,
           enqueued = [First (Fragments (stringified (encoder (sample_state None))))], signal = None\<rparr>
      = sample_state None"
    "stringified (encoder (sample_state None)) = [Some fragment_promise0]"
    by (simp_all add: sample_state_def)
  have b2: "frame_text sample_encode_env (First (Sentinel (- 7))) = ''-7'' @ [CHR 0x0A]"
    using b(2) s by simp
  have c1: "encode sample_encode_env [] None (VPromise 1) [] =
       settle_loop sample_encode_env [] (sample_state None)"
    using c(1) unfolding d(1) .
  have c2: "frame_text sample_encode_env (First (Fragments [Some fragment_promise0])) =
       ''['' @ fragment_promise0 @ '']'' @ [CHR 0x0A]"
    using c(2) by (simp add: d(2))
  show ?thesis
    by (intro conjI a b(1) b2 c1 c2)
qed

theorem rejection_frame_rule_witness:
  "- 1 \<le> lastSentIndex (sample_state None)
   \<and> on_rejected sample_encode_env 0 (VString ''boom'') (sample_state None) =
       settlement_frame sample_encode_env ''E'' 0 (VError ''An unknown error occurred'') (sample_state None)
   \<and> on_resolved sample_encode_env 0 (VNumber 1) (sample_state None) =
       settlement_frame sample_encode_env ''P'' 0 (VNumber 1) (sample_state None)"
proof -
  have 1: "- 1 \<le> lastSentIndex (sample_state None)" by (simp add: sample_state_def)
  from rejection_frame_rule [OF 1, of sample_encode_env 0 "VString ''boom''" "VNumber 1"] 1
  show ?thesis by (simp add: sample_encode_env_simps)
qed


text \<open>
  C6 fails as stated. The input is an array of two promises that settle in the same turn,
  the first with the number 7 and the second with an object that \<open>flatten\<close> cannot
  encode. The chain of the first promise enqueues its frame and settles first, so
  \<open>Promise.race\<close> is fulfilled; the chain of the second throws out of \<open>flatten\<close>, which
  has written the fragment of a key by then, and the rejection is dropped. Both entries
  are deleted and the stream closes: the table holds a fragment, and a hole before it,
  that no frame carries.
\<close>

theorem dropped_throw_counterexample:
  "observed_ending (encode sample_encode_env [] None (VObject 1) (sample_together (VObject 0)))
     = Some Closed
   \<and> observed_wire (encode sample_encode_env [] None (VObject 1) (sample_together (VObject 0)))
     = Some [Some fragment_array12, Some fragment_promise1, Some fragment_promise2, Some ''7'']
   \<and> observed_table (encode sample_encode_env [] None (VObject 1) (sample_together (VObject 0)))
     = Some [Some fragment_array12, Some fragment_promise1, Some fragment_promise2, Some ''7'',
             None, Some (quoted ''f'')]"
  unfolding sample_dropped_run
  by (simp add: observed_ending_def observed_wire_def observed_table_def wire_slots_def)

theorem no_retransmission_witness:
  "flatten_contract sample_encode_env
   \<and> encode sample_encode_env [] None (VObject 1) (sample_together (VNumber 8)) =
       Some (\<lparr>encoder = \<lparr>edeferred = [], index = 5,
                    indices = [(VNumber 8, 4), (VNumber 7, 3), (VObject 1, 0)],
                    stringified = [Some fragment_array12, Some fragment_promise1, Some fragment_promise2,
                                   Some ''7'', Some ''8'']\<rparr>,
               lastSentIndex = 4,
               enqueued = [First (Fragments [Some fragment_array12, Some fragment_promise1, Some fragment_promise2]),
                           Settlement ''P'' 1 (Fragments [Some ''7'']),
                           Settlement ''P'' 2 (Fragments [Some ''8''])],
               signal = None\<rparr>, Closed)
   \<and> in_step (\<lparr>encoder = \<lparr>edeferred = [], index = 5,
                    indices = [(VNumber 8, 4), (VNumber 7, 3), (VObject 1, 0)],
                    stringified = [Some fragment_array12, Some fragment_promise1, Some fragment_promise2,
                                   Some ''7'', Some ''8'']\<rparr>,
               lastSentIndex = 4,
               enqueued = [First (Fragments [Some fragment_array12, Some fragment_promise1, Some fragment_promise2]),
                           Settlement ''P'' 1 (Fragments [Some ''7'']),
                           Settlement ''P'' 2 (Fragments [Some ''8''])],
               signal = None\<rparr> :: (val \<times> int) list state)
   \<and> in_step (sample_state None) \<and> lastSentIndex (sample_state None) + 1 = index (encoder (sample_state None))
   \<and> enqueued (snd (on_resolved sample_encode_env 0 (VNumber 1) (sample_state None))) =
       [First (Fragments [Some fragment_promise0]), Settlement ''P'' 0 (Fragments [Some ''1''])]
   \<and> enqueued (snd (on_rejected sample_encode_env 0 (VError ''x'') (sample_state None))) =
       [First (Fragments [Some fragment_promise0]),
        Settlement ''E'' 0 (Fragments [Some (''['' @ quoted ''E'' @ '',2]''), Some (quoted ''x'')])]"
proof -
  let ?fin = "\<lparr>encoder = \<lparr>edeferred = [], index = 5,
                    indices = [(VNumber 8, 4), (VNumber 7, 3), (VObject 1, 0)],
                    stringified = [Some fragment_array12, Some fragment_promise1, Some fragment_promise2,
                                   Some ''7'', Some ''8'']\<rparr>,
               lastSentIndex = 4,
               enqueued = [First (Fragments [Some fragment_array12, Some fragment_promise1, Some fragment_promise2]),
                           Settlement ''P'' 1 (Fragments [Some ''7'']),
                           Settlement ''P'' 2 (Fragments [Some ''8''])],
               signal = None\<rparr> :: (val \<times> int) list state"
  let ?e1 = "\<lparr>edeferred = [(0, VPromise 1)], index = 2, indices = [(VNumber 1, 1), (VPromise 1, 0)],
              stringified = [Some fragment_promise0, Some ''1'']\<rparr> :: (val \<times> int) list encoder"
  let ?e2 = "\<lparr>edeferred = [(0, VPromise 1)], index = 3, indices = [(VError ''x'', 1), (VPromise 1, 0)],
              stringified = [Some fragment_promise0, Some (''['' @ quoted ''E'' @ '',2]''), Some (quoted ''x'')]\<rparr>
              :: (val \<times> int) list encoder"
  have fin: "\<forall>x. Closed \<noteq> Errored x" by simp
  have q: "\<forall>s \<in> set (run_settlements None (sample_together (VNumber 8))).
             \<forall>enc. \<exists>rid enc'. flatten sample_encode_env (flattened s) enc = (Inr rid, enc')"
    by (auto simp: run_settlements_def sample_together_def flattened_def sample_encode_env_simps
        sample_flatten_def sample_write_def Let_def split: option.splits)
  have f1: "flatten sample_encode_env (VNumber 1) (encoder (sample_state None)) = (Inr (Plain 1), ?e1) \<and> (0::int) \<le> 1"
    by (simp add: sample_state_def sample_flatten_eval)
  have f2: "flatten sample_encode_env (normalized (VError ''x'')) (encoder (sample_state None)) = (Inr (Plain 1), ?e2) \<and> (0::int) \<le> 1"
    by (simp add: sample_state_def sample_flatten_eval normalized_def)
  have i0: "in_step (sample_state None) \<and> lastSentIndex (sample_state None) + 1 = index (encoder (sample_state None))"
    by (simp add: sample_state_def in_step_def wire_slots_def table_slots_def)
  have sl: "array_slice [Some fragment_promise0, Some ''1''] (lastSentIndex (sample_state None) + 1) = [Some ''1'']"
    "array_slice [Some fragment_promise0, Some x, Some y] (lastSentIndex (sample_state None) + 1) = [Some x, Some y]" for x y
    by (simp_all add: array_slice_def sample_state_def Let_def)
  from no_retransmission [OF sample_flatten_contract sample_quiet_run q,
      where v = "VNumber 1" and ?st0.0 = "sample_state None" and i = 1 and enc = ?e1 and d = 0] f1 fin
  have a: "in_step ?fin"
    and b: "snd (on_resolved sample_encode_env 0 (VNumber 1) (sample_state None)) =
            \<lparr>encoder = ?e1, lastSentIndex = int (length (stringified ?e1)) - 1,
             enqueued = enqueued (sample_state None) @
               [Settlement (TYPE_PROMISE sample_encode_env) 0
                  (Fragments (array_slice (stringified ?e1) (lastSentIndex (sample_state None) + 1)))],
             signal = signal (sample_state None)\<rparr>"
    by blast+
  from no_retransmission [OF sample_flatten_contract sample_quiet_run q,
      where r = "VError ''x''" and ?st0.0 = "sample_state None" and i = 1 and enc = ?e2 and d = 0] f2
  have c: "snd (on_rejected sample_encode_env 0 (VError ''x'') (sample_state None)) =
            \<lparr>encoder = ?e2, lastSentIndex = int (length (stringified ?e2)) - 1,
             enqueued = enqueued (sample_state None) @
               [Settlement (TYPE_ERROR sample_encode_env) 0
                  (Fragments (array_slice (stringified ?e2) (lastSentIndex (sample_state None) + 1)))],
             signal = signal (sample_state None)\<rparr>"
    by blast
  have en: "enqueued (sample_state None) = [First (Fragments [Some fragment_promise0])]"
    by (simp add: sample_state_def)
  have e: "enqueued (snd (on_resolved sample_encode_env 0 (VNumber 1) (sample_state None))) =
       [First (Fragments [Some fragment_promise0]), Settlement ''P'' 0 (Fragments [Some ''1''])]"
    by (simp add: b sl en sample_encode_env_simps)
  have f: "enqueued (snd (on_rejected sample_encode_env 0 (VError ''x'') (sample_state None))) =
       [First (Fragments [Some fragment_promise0]),
        Settlement ''E'' 0 (Fragments [Some (''['' @ quoted ''E'' @ '',2]''), Some (quoted ''x'')])]"
    by (simp add: c sl en sample_encode_env_simps)
  show ?thesis
    by (intro conjI sample_flatten_contract sample_quiet_run a i0 [THEN conjunct1] i0 [THEN conjunct2] e f)
qed

end
